theory Spec2Isabelle
  imports Complex_Main "HOL-Library.AList" "HOL-Library.Multiset"
begin

section \<open>Data model (types.ts, database.ts)\<close>

text \<open>
  Conventions of the embedding.
  \<^item> Epoch milliseconds, listened seconds and play counts are \<open>int\<close>: the producer stores
    \<open>Date.now()\<close> and \<open>Math.floor\<close> of the accumulated time, which are finite integers.
    \<open>totalDuration\<close> is \<open>Math.floor(video.duration)\<close>, and the duration of a stream without
    an end is \<open>Infinity\<close>: it is a \<open>number\<close> below. Minute totals are doubles, see the
    section on arithmetic.
  \<^item> A calendar date string \<open>YYYY-MM-DD\<close> is represented by the day it denotes, counted in
    days since 1970-01-01 (UTC). \<open>new Date(ms).toISOString().split('T')[0]\<close> is then
    \<open>ms div 86400000\<close>, and \<open>new Date(s).getTime()\<close> is \<open>s * 86400000\<close>.
  \<^item> An optional field (\<open>x?: T\<close>, possibly \<open>undefined\<close>) is \<open>T option\<close>.
  \<^item> A \<open>Record<string, T>\<close> object is an association list in insertion order with one entry
    per key; \<open>o[k] = v\<close> is \<open>AList.update k v o\<close>, \<open>o[k]\<close> is \<open>map_of o k\<close>.
\<close>

type_synonym isodate = int
type_synonym yearmonth = int

text \<open>
  A value of a property of type \<open>number\<close> whose producer is \<open>Math.floor\<close>: an integer,
  \<open>NaN\<close> or an infinity; and \<open>null\<close>, which is what such a property holds after a JSON
  text was read back (see \<open>jsonNumber\<close>).
\<close>

datatype number = Num int | NaN | PosInf | NegInf | Null

text \<open>The field \<open>id\<close> of the source is named \<open>recId\<close> here.\<close>

record PlayRecord =
  recId :: "nat option"
  songId :: string
  songTitle :: string
  artistId :: string
  artistName :: string
  artistImageUrl :: "string option"
  albumName :: "string option"
  thumbnailUrl :: "string option"
  timestamp :: int
  durationListened :: int
  totalDuration :: number
  skipped :: bool
  completed :: bool

record DailyAggregate =
  date :: isodate
  totalMinutes :: rat
  songsPlayed :: nat
  uniqueSongs :: nat
  uniqueArtists :: nat
  topSongs :: "(string \<times> string \<times> nat) list"
  topArtists :: "(string \<times> string \<times> nat) list"
  genreBreakdown :: "(string \<times> rat) list"
  hourlyBreakdown :: "nat list"
  skipCount :: nat

record MonthlyAggregate =
  yearMonth :: yearmonth
  monthMinutes :: rat
  monthTopSongs :: "(string \<times> string \<times> string \<times> nat) list"
  monthTopArtists :: "(string \<times> string \<times> rat) list"
  monthGenreBreakdown :: "(string \<times> rat) list"
  daysActive :: nat

record Streak =
  lastListenDate :: isodate
  currentStreak :: int

record DatabaseSchema =
  playRecords :: "PlayRecord list"
  dailyAggregates :: "(isodate \<times> DailyAggregate) list"
  monthlyAggregates :: "(yearmonth \<times> MonthlyAggregate) list"
  streak :: "Streak option"

text \<open>
  The state of a \<open>StatsDatabase\<close> object: the in-memory document, the dirty flag and the
  content of the backing file (\<open>None\<close> while nothing has been written).
\<close>

record StatsDatabase =
  data :: DatabaseSchema
  isDirty :: bool
  disk :: "DatabaseSchema option"

subsection \<open>The wire format\<close>

text \<open>
  A JSON text is represented by what \<open>JSON.parse\<close> makes of it: a syntax error, the value
  \<open>null\<close>, or a value whose top-level properties are read by the program. A property that
  is absent (or not of the expected shape) reads as \<open>None\<close>.
\<close>

record ExportDoc =
  version :: "int option"
  exportDate :: "int option"
  docPlayRecords :: "PlayRecord list option"
  docDailyAggregates :: "(isodate \<times> DailyAggregate) list option"
  docMonthlyAggregates :: "(yearmonth \<times> MonthlyAggregate) list option"
  docStreak :: "Streak option"

datatype wire = Unparseable string | ParsedNull | Parsed ExportDoc

datatype error =
    SyntaxError
  | TypeError
  | ErrorMsg string

text \<open>
  \<open>JSON.stringify\<close> writes a finite number in the shortest form that reads back as the
  same number, a string with the escapes that read back as the same string, and \<open>null\<close>
  for a number that is not finite and for \<open>null\<close>; a property whose value is \<open>undefined\<close>
  is left out, and reads back as absent. So the text of a value parses to the value with
  every non-finite number replaced by \<open>null\<close>.
\<close>

definition jsonNumber :: "number \<Rightarrow> number" where
  "jsonNumber x = (case x of Num n \<Rightarrow> Num n | _ \<Rightarrow> Null)"

definition jsonRecord :: "PlayRecord \<Rightarrow> PlayRecord" where
  "jsonRecord record = record\<lparr>totalDuration := jsonNumber (totalDuration record)\<rparr>"

definition jsonSchema :: "DatabaseSchema \<Rightarrow> DatabaseSchema" where
  "jsonSchema doc = doc\<lparr>playRecords := map jsonRecord (playRecords doc)\<rparr>"

definition stringify :: "ExportDoc \<Rightarrow> wire" where
  "stringify doc = Parsed (doc\<lparr>docPlayRecords := map_option (map jsonRecord) (docPlayRecords doc)\<rparr>)"

subsection \<open>JavaScript truthiness\<close>

text \<open>
  \<open>x || d\<close> for an array or object \<open>x\<close> that may be missing: arrays and objects are always
  truthy, \<open>undefined\<close> and \<open>null\<close> are not.
\<close>

definition orElse :: "'a option \<Rightarrow> 'a \<Rightarrow> 'a" where
  "orElse x d = (case x of None \<Rightarrow> d | Some v \<Rightarrow> v)"

text \<open>A number that may be missing, used as a condition: \<open>0\<close> is falsy like \<open>undefined\<close>.\<close>

definition truthyNum :: "int option \<Rightarrow> int option" where
  "truthyNum x = (case x of None \<Rightarrow> None | Some n \<Rightarrow> if n = 0 then None else Some n)"

text \<open>A string that may be missing, used as a condition: \<open>''\<close> is falsy like \<open>undefined\<close>.\<close>

definition truthyStr :: "string option \<Rightarrow> string option" where
  "truthyStr x = (case x of None \<Rightarrow> None | Some s \<Rightarrow> if s = [] then None else Some s)"

section \<open>StatsDatabase (database.ts)\<close>

definition emptySchema :: DatabaseSchema where
  "emptySchema = \<lparr>playRecords = [], dailyAggregates = [], monthlyAggregates = [], streak = None\<rparr>"

definition newDatabase :: StatsDatabase where
  "newDatabase = \<lparr>data = emptySchema, isDirty = False, disk = None\<rparr>"

text \<open>
  \<open>save\<close> writes \<open>JSON.stringify(this.data)\<close>: \<open>fsOk\<close> tells whether the write succeeds; a
  failure is logged and swallowed.
\<close>

definition save :: "bool \<Rightarrow> StatsDatabase \<Rightarrow> StatsDatabase" where
  "save fsOk d = (if fsOk then d\<lparr>isDirty := False, disk := Some (jsonSchema (data d))\<rparr> else d)"

definition markDirty :: "StatsDatabase \<Rightarrow> StatsDatabase" where
  "markDirty d = d\<lparr>isDirty := True\<rparr>"

definition addPlayRecord :: "PlayRecord \<Rightarrow> StatsDatabase \<Rightarrow> StatsDatabase" where
  "addPlayRecord record d =
     markDirty (d\<lparr>data := (data d)\<lparr>playRecords :=
        playRecords (data d) @ [record\<lparr>recId := Some (length (playRecords (data d)) + 1)\<rparr>]\<rparr>\<rparr>)"

text \<open>
  \<open>getPlayRecords\<close>: the bounds are tested for truthiness, the start first; the copy is
  sorted with the comparator \<open>b.timestamp - a.timestamp\<close> (\<open>Array.prototype.sort\<close> is stable).
\<close>

definition getPlayRecords :: "int option \<Rightarrow> int option \<Rightarrow> StatsDatabase \<Rightarrow> PlayRecord list" where
  "getPlayRecords startDate endDate d =
     (let records = playRecords (data d);
          records' =
            (case truthyNum startDate of
               Some s \<Rightarrow>
                 (case truthyNum endDate of
                    Some e \<Rightarrow> filter (\<lambda>r. timestamp r \<ge> s \<and> timestamp r \<le> e) records
                  | None \<Rightarrow> filter (\<lambda>r. timestamp r \<ge> s) records)
             | None \<Rightarrow> records)
      in sort_key (\<lambda>r. - timestamp r) records')"

definition saveDailyAggregate :: "isodate \<Rightarrow> DailyAggregate \<Rightarrow> StatsDatabase \<Rightarrow> StatsDatabase" where
  "saveDailyAggregate day agg d =
     markDirty (d\<lparr>data := (data d)\<lparr>dailyAggregates := AList.update day agg (dailyAggregates (data d))\<rparr>\<rparr>)"

definition getDailyAggregate :: "isodate \<Rightarrow> StatsDatabase \<Rightarrow> DailyAggregate option" where
  "getDailyAggregate day d = map_of (dailyAggregates (data d)) day"

definition saveMonthlyAggregate :: "yearmonth \<Rightarrow> MonthlyAggregate \<Rightarrow> StatsDatabase \<Rightarrow> StatsDatabase" where
  "saveMonthlyAggregate ym agg d =
     markDirty (d\<lparr>data := (data d)\<lparr>monthlyAggregates := AList.update ym agg (monthlyAggregates (data d))\<rparr>\<rparr>)"

definition dbUpdateStreak :: "isodate \<Rightarrow> int \<Rightarrow> StatsDatabase \<Rightarrow> StatsDatabase" where
  "dbUpdateStreak day n d =
     markDirty (d\<lparr>data := (data d)\<lparr>streak := Some \<lparr>lastListenDate = day, currentStreak = n\<rparr>\<rparr>\<rparr>)"

definition getStreak :: "StatsDatabase \<Rightarrow> Streak option" where
  "getStreak d = streak (data d)"

text \<open>
  \<open>exportData\<close>: \<open>JSON.stringify({version: 1, exportDate: Date.now(), ...this.data}, null, 2)\<close>;
  \<open>now\<close> is the value of \<open>Date.now()\<close>.
\<close>

definition exportData :: "int \<Rightarrow> StatsDatabase \<Rightarrow> wire" where
  "exportData now d =
     stringify \<lparr>version = Some 1, exportDate = Some now,
       docPlayRecords = Some (playRecords (data d)),
       docDailyAggregates = Some (dailyAggregates (data d)),
       docMonthlyAggregates = Some (monthlyAggregates (data d)),
       docStreak = streak (data d)\<rparr>"

text \<open>
  \<open>importData\<close>: \<open>JSON.parse\<close> is not guarded, so a syntax error propagates, and so does the
  \<open>TypeError\<close> of reading a property of \<open>null\<close>; the document is then left as it is.
\<close>

definition importData :: "bool \<Rightarrow> wire \<Rightarrow> StatsDatabase \<Rightarrow> error + StatsDatabase" where
  "importData fsOk jsonData d =
     (case jsonData of
        Unparseable s \<Rightarrow> Inl SyntaxError
      | ParsedNull \<Rightarrow> Inl TypeError
      | Parsed imported \<Rightarrow>
          Inr (save fsOk (markDirty (d\<lparr>data :=
            \<lparr>playRecords = orElse (docPlayRecords imported) [],
             dailyAggregates = orElse (docDailyAggregates imported) [],
             monthlyAggregates = orElse (docMonthlyAggregates imported) [],
             streak = docStreak imported\<rparr>\<rparr>))))"

section \<open>Queries by time range\<close>

text \<open>What the bounds of a query ask for: both are inclusive, a missing bound admits everything.\<close>

definition withinBounds :: "int option \<Rightarrow> int option \<Rightarrow> PlayRecord \<Rightarrow> bool" where
  "withinBounds startDate endDate r =
     ((case startDate of None \<Rightarrow> True | Some s \<Rightarrow> s \<le> timestamp r) \<and>
      (case endDate of None \<Rightarrow> True | Some e \<Rightarrow> timestamp r \<le> e))"

definition newestFirst :: "PlayRecord list \<Rightarrow> bool" where
  "newestFirst rs = sorted_wrt (\<lambda>a b. timestamp b \<le> timestamp a) rs"

text \<open>A record with the given ids and numbers, for concrete examples.\<close>

definition mkRecord :: "string \<Rightarrow> string \<Rightarrow> int \<Rightarrow> int \<Rightarrow> PlayRecord" where
  "mkRecord sid aid ts dur =
     \<lparr>recId = None, songId = sid, songTitle = sid, artistId = aid, artistName = aid,
      artistImageUrl = None, albumName = None, thumbnailUrl = None, timestamp = ts,
      durationListened = dur, totalDuration = Num 200, skipped = False, completed = False\<rparr>"

definition dbOf :: "PlayRecord list \<Rightarrow> StatsDatabase" where
  "dbOf rs = newDatabase\<lparr>data := emptySchema\<lparr>playRecords := rs\<rparr>\<rparr>"


section \<open>StatsBackend (backend.ts)\<close>

text \<open>
  The persistent configuration of the host. An unset string and an unset number are \<open>None\<close>;
  \<open>cloudSyncLastSyncTime\<close> holds the instant of the last pass in epoch milliseconds.
\<close>

record StatsConfig =
  enabled :: bool
  trackingStartDate :: string
  cloudSyncEnabled :: bool
  cloudSyncClientId :: "string option"
  cloudSyncClientSecret :: "string option"
  cloudSyncRefreshToken :: "string option"
  cloudSyncAccessToken :: "string option"
  cloudSyncAccessTokenExpiry :: "int option"
  cloudSyncFileId :: "string option"
  cloudSyncLastSyncTime :: "int option"
  cloudSyncLastHash :: "string option"
  cloudSyncLastError :: "string option"

text \<open>The requests a pass sends, in the order sent.\<close>

datatype request =
    TokenRefresh string string string
  | ListFiles string
  | Download string string
  | Create string wire
  | Upload string string wire

text \<open>
  The state of a \<open>StatsBackend\<close> object, together with the configuration store behind
  \<open>getConfig\<close>/\<open>setConfig\<close> and the log of the requests sent so far.
\<close>

record StatsBackend =
  db :: "StatsDatabase option"
  isSyncing :: bool
  sessionAccessToken :: "string option"
  sessionAccessTokenExpiry :: int
  sessionRefreshToken :: "string option"
  config :: StatsConfig
  netLog :: "request list"

subsection \<open>Arithmetic\<close>

text \<open>
  The numbers of the program are IEEE 754 doubles. A finite double is represented by the
  rational number it denotes, and an operation gives the exact result rounded to the
  nearest double, a tie going to the even significand (53 binary digits). The range of the
  exponent is not represented: minutes and rates stay far inside it.
\<close>

definition pow2 :: "int \<Rightarrow> rat" where
  "pow2 e = (if 0 \<le> e then 2 ^ nat e else 1 / 2 ^ nat (- e))"

text \<open>The number of binary digits of a positive integer.\<close>

function bitLength :: "int \<Rightarrow> int" where
  "bitLength n = (if n \<le> 0 then 0 else 1 + bitLength (n div 2))"
  by auto
termination
  by (relation "measure nat") auto

declare bitLength.simps [simp del]

text \<open>
  The binary exponent of a positive rational \<open>x\<close>, the \<open>k\<close> with \<open>2^k \<le> x < 2^(k+1)\<close>: the
  difference of the digit counts of numerator and denominator, or one less.
\<close>

definition exponentOf :: "rat \<Rightarrow> int" where
  "exponentOf x =
     (case quotient_of x of (p, q) \<Rightarrow>
        (let k = bitLength p - bitLength q
         in if pow2 k \<le> x then k else k - 1))"

definition roundHalfEven :: "rat \<Rightarrow> int" where
  "roundHalfEven x =
     (let f = \<lfloor>x\<rfloor>; r = x - of_int f
      in if r < 1 / 2 then f else if r > 1 / 2 then f + 1 else if even f then f else f + 1)"

definition toDouble :: "rat \<Rightarrow> rat" where
  "toDouble x =
     (if x = 0 then 0
      else (let e = exponentOf \<bar>x\<bar> - 52
            in sgn x * of_int (roundHalfEven (\<bar>x\<bar> / pow2 e)) * pow2 e))"

text \<open>\<open>x + y\<close>, \<open>x * y\<close> and \<open>x / y\<close> on doubles.\<close>

definition fadd :: "rat \<Rightarrow> rat \<Rightarrow> rat" where
  "fadd x y = toDouble (x + y)"

definition fmul :: "rat \<Rightarrow> rat \<Rightarrow> rat" where
  "fmul x y = toDouble (x * y)"

definition fdiv :: "rat \<Rightarrow> rat \<Rightarrow> rat" where
  "fdiv x y = toDouble (x / y)"

text \<open>\<open>Math.round\<close> gives the nearest integer, a tie going up; it is exact on a double.\<close>

definition jsRound :: "rat \<Rightarrow> int" where
  "jsRound x = \<lfloor>x + 1 / 2\<rfloor>"

text \<open>\<open>record.durationListened / 60\<close>\<close>

definition minutesOf :: "PlayRecord \<Rightarrow> rat" where
  "minutesOf record = fdiv (of_int (durationListened record)) 60"

subsection \<open>Dates\<close>

definition dayMs :: int where
  "dayMs = 24 * 60 * 60 * 1000"

text \<open>\<open>new Date(ms).toISOString().split('T')[0]\<close>\<close>

definition dateOf :: "int \<Rightarrow> isodate" where
  "dateOf ms = ms div 86400000"

text \<open>\<open>new Date(dateString).getTime()\<close>\<close>

definition dateTime :: "isodate \<Rightarrow> int" where
  "dateTime d = d * 86400000"

text \<open>
  \<open>new Date(ms).getHours()\<close>: the hour of the local day; \<open>tz\<close> gives the offset of local
  time from UTC, in milliseconds, at an instant.
\<close>

definition getHours :: "(int \<Rightarrow> int) \<Rightarrow> int \<Rightarrow> nat" where
  "getHours tz ms = nat (((ms + tz ms) div 3600000) mod 24)"

subsection \<open>Streak\<close>

definition updateStreak :: "int \<Rightarrow> StatsBackend \<Rightarrow> StatsBackend" where
  "updateStreak ts st =
     (case db st of
        None \<Rightarrow> st
      | Some d \<Rightarrow>
          (let today = dateOf ts in
           case getStreak d of
             None \<Rightarrow> st\<lparr>db := Some (dbUpdateStreak today 1 d)\<rparr>
           | Some streakData \<Rightarrow>
               (let lastDate = dateTime (lastListenDate streakData);
                    currentDate = dateTime today;
                    diffDays = (currentDate - lastDate) div dayMs
                in if diffDays = 1
                   then st\<lparr>db := Some (dbUpdateStreak today (currentStreak streakData + 1) d)\<rparr>
                   else if diffDays > 1
                   then st\<lparr>db := Some (dbUpdateStreak today 1 d)\<rparr>
                   else st)))"

text \<open>The handler of \<open>music-stats:add-play-record\<close>.\<close>

definition addRecordHandler :: "PlayRecord \<Rightarrow> StatsBackend \<Rightarrow> StatsBackend" where
  "addRecordHandler record st =
     (case db st of
        None \<Rightarrow> st
      | Some d \<Rightarrow> updateStreak (timestamp record) (st\<lparr>db := Some (addPlayRecord record d)\<rparr>))"

text \<open>The streak count stored after each event of a sequence of play events.\<close>

definition streakCount :: "StatsBackend \<Rightarrow> int option" where
  "streakCount st = (case db st of None \<Rightarrow> None | Some d \<Rightarrow> map_option currentStreak (getStreak d))"

fun streakCounts :: "PlayRecord list \<Rightarrow> StatsBackend \<Rightarrow> int option list" where
  "streakCounts [] st = []"
| "streakCounts (r # rs) st =
     (let st' = addRecordHandler r st in streakCount st' # streakCounts rs st')"

text \<open>The day difference of the four-case rule.\<close>

definition diffDaysOf :: "int \<Rightarrow> Streak \<Rightarrow> int" where
  "diffDaysOf ts s = dateOf ts - lastListenDate s"

subsection \<open>Daily aggregation\<close>

text \<open>\<open>m.set(k, (m.get(k) || 0) + 1)\<close> on a \<open>Map\<close>, which keeps insertion order.\<close>

definition bump :: "string \<Rightarrow> (string \<times> nat) list \<Rightarrow> (string \<times> nat) list" where
  "bump k m = AList.update k (orElse (map_of m k) 0 + 1) m"

text \<open>The accumulators of the loop: song map, artist map, hourly histogram, skip count.\<close>

type_synonym dayAcc = "(string \<times> nat) list \<times> (string \<times> nat) list \<times> nat list \<times> nat"

definition dayStep :: "(int \<Rightarrow> int) \<Rightarrow> PlayRecord \<Rightarrow> dayAcc \<Rightarrow> dayAcc" where
  "dayStep tz record acc =
     (case acc of (songMap, artistMap, hourlyMap, nSkips) \<Rightarrow>
        (let hour = getHours tz (timestamp record) in
         (bump (songId record) songMap,
          bump (artistId record) artistMap,
          hourlyMap[hour := hourlyMap ! hour + 1],
          (if skipped record then nSkips + 1 else nSkips))))"

text \<open>\<open>Array.from(m.entries()).sort((a, b) => b[1] - a[1]).slice(0, 10)\<close>\<close>

definition topTen :: "(string \<times> nat) list \<Rightarrow> (string \<times> nat) list" where
  "topTen m = take 10 (sort_key (\<lambda>e. - int (snd e)) m)"

text \<open>
  The \<open>map\<close> over the top entries: \<open>records.find(...)!\<close> is asserted to be there, and reading
  a property of \<open>undefined\<close> would raise a \<open>TypeError\<close>.
\<close>

fun describeTop :: "(PlayRecord \<Rightarrow> string) \<Rightarrow> (PlayRecord \<Rightarrow> string) \<Rightarrow> PlayRecord list \<Rightarrow>
    (string \<times> nat) list \<Rightarrow> error + (string \<times> string \<times> nat) list" where
  "describeTop key label records [] = Inr []"
| "describeTop key label records ((i, plays) # rest) =
     (case find (\<lambda>r. key r = i) records of
        None \<Rightarrow> Inl TypeError
      | Some r \<Rightarrow>
          (case describeTop key label records rest of
             Inl e \<Rightarrow> Inl e
           | Inr ys \<Rightarrow> Inr ((i, label r, plays) # ys)))"

text \<open>\<open>records.reduce((sum, r) => sum + r.durationListened / 60, 0)\<close>\<close>

definition sumMinutes :: "PlayRecord list \<Rightarrow> rat" where
  "sumMinutes records = foldl (\<lambda>sum r. fadd sum (minutesOf r)) 0 records"

text \<open>The aggregate built from the records of a day (the body after the emptiness test).\<close>

definition buildDailyAggregate :: "(int \<Rightarrow> int) \<Rightarrow> isodate \<Rightarrow> PlayRecord list \<Rightarrow> error + DailyAggregate" where
  "buildDailyAggregate tz today records =
     (case fold (dayStep tz) records ([], [], replicate 24 0, 0) of
        (songMap, artistMap, hourlyMap, nSkips) \<Rightarrow>
          (let minutes = sumMinutes records in
           case describeTop songId songTitle records (topTen songMap) of
             Inl e \<Rightarrow> Inl e
           | Inr songs \<Rightarrow>
               (case describeTop artistId artistName records (topTen artistMap) of
                  Inl e \<Rightarrow> Inl e
                | Inr artists \<Rightarrow>
                    Inr \<lparr>date = today,
                         totalMinutes = fdiv (of_int (jsRound (fmul minutes 10))) 10,
                         songsPlayed = length records,
                         uniqueSongs = length (remdups (map songId records)),
                         uniqueArtists = length (remdups (map artistId records)),
                         topSongs = songs,
                         topArtists = artists,
                         genreBreakdown = [],
                         hourlyBreakdown = hourlyMap,
                         skipCount = nSkips\<rparr>)))"

text \<open>
  \<open>aggregateDailyStats\<close>: \<open>now\<close> is the clock; the records of today are those between
  midnight UTC and the last millisecond of the day.
\<close>

definition aggregateDailyStats :: "(int \<Rightarrow> int) \<Rightarrow> int \<Rightarrow> StatsBackend \<Rightarrow> error + StatsBackend" where
  "aggregateDailyStats tz now st =
     (case db st of
        None \<Rightarrow> Inr st
      | Some d \<Rightarrow>
          (let today = dateOf now;
               startOfDay = dateTime today;
               endOfDay = startOfDay + 24 * 60 * 60 * 1000 - 1;
               records = getPlayRecords (Some startOfDay) (Some endOfDay) d
           in if length records = 0 then Inr st
              else (case buildDailyAggregate tz today records of
                      Inl e \<Rightarrow> Inl e
                    | Inr agg \<Rightarrow> Inr (st\<lparr>db := Some (saveDailyAggregate today agg d)\<rparr>))))"

text \<open>The records of a database that fall on a day.\<close>

definition recordsOfDay :: "isodate \<Rightarrow> StatsDatabase \<Rightarrow> PlayRecord list" where
  "recordsOfDay day d = filter (\<lambda>r. dateOf (timestamp r) = day) (playRecords (data d))"

definition defaultConfig :: StatsConfig where
  "defaultConfig =
     \<lparr>enabled = True, trackingStartDate = [], cloudSyncEnabled = False,
      cloudSyncClientId = None, cloudSyncClientSecret = None, cloudSyncRefreshToken = None,
      cloudSyncAccessToken = None, cloudSyncAccessTokenExpiry = None, cloudSyncFileId = None,
      cloudSyncLastSyncTime = None, cloudSyncLastHash = None, cloudSyncLastError = None\<rparr>"

text \<open>A backend over a database, as \<open>initialize\<close> leaves it.\<close>

definition backendOf :: "StatsDatabase \<Rightarrow> StatsBackend" where
  "backendOf d =
     \<lparr>db = Some d, isSyncing = False, sessionAccessToken = None, sessionAccessTokenExpiry = 0,
      sessionRefreshToken = None, config = defaultConfig, netLog = []\<rparr>"

text \<open>The query that \<open>aggregateDailyStats\<close> makes at \<open>now\<close>.\<close>

definition todayRecords :: "int \<Rightarrow> StatsDatabase \<Rightarrow> PlayRecord list" where
  "todayRecords now d =
     getPlayRecords (Some (dateTime (dateOf now)))
       (Some (dateTime (dateOf now) + 24 * 60 * 60 * 1000 - 1)) d"

section \<open>Reading and merging exports (backend.ts)\<close>

definition emptyDoc :: ExportDoc where
  "emptyDoc =
     \<lparr>version = None, exportDate = None, docPlayRecords = Some [], docDailyAggregates = Some [],
      docMonthlyAggregates = Some [], docStreak = None\<rparr>"

text \<open>
  \<open>parseExport\<close> returns the pair \<open>{exportDate, data}\<close>. Both the syntax error of
  \<open>JSON.parse\<close> and the \<open>TypeError\<close> of \<open>parsed.exportDate\<close> on \<open>null\<close> are caught.
\<close>

definition parseExport :: "wire \<Rightarrow> int \<times> ExportDoc" where
  "parseExport jsonData =
     (case jsonData of
        Unparseable s \<Rightarrow> (0, emptyDoc)
      | ParsedNull \<Rightarrow> (0, emptyDoc)
      | Parsed parsed \<Rightarrow>
          ((case truthyNum (exportDate parsed) of None \<Rightarrow> 0 | Some n \<Rightarrow> n), parsed))"

text \<open>\<open>String(n)\<close> for an integer: decimal digits, with a minus sign for a negative number.\<close>

definition digitChar :: "nat \<Rightarrow> char" where
  "digitChar n = ''0123456789'' ! n"

fun showNat :: "nat \<Rightarrow> string" where
  "showNat n = (if n < 10 then [digitChar n] else showNat (n div 10) @ [digitChar (n mod 10)])"

definition showInt :: "int \<Rightarrow> string" where
  "showInt i = (if i < 0 then CHR ''-'' # showNat (nat (- i)) else showNat (nat i))"

text \<open>\<open>String(x)\<close> for a \<open>number\<close>, as a template string inserts it.\<close>

definition showNumber :: "number \<Rightarrow> string" where
  "showNumber x =
     (case x of
        Num n \<Rightarrow> showInt n
      | NaN \<Rightarrow> ''NaN''
      | PosInf \<Rightarrow> ''Infinity''
      | NegInf \<Rightarrow> ''-Infinity''
      | Null \<Rightarrow> ''null'')"

text \<open>The key of the deduplication map, a template string with the separator \<open>|\<close>.\<close>

definition recordKey :: "PlayRecord \<Rightarrow> string" where
  "recordKey record =
     songId record @ ''|'' @ artistId record @ ''|'' @ showInt (timestamp record) @ ''|'' @
     showInt (durationListened record) @ ''|'' @ showNumber (totalDuration record)"

definition dedupStep :: "PlayRecord \<Rightarrow> (string \<times> PlayRecord) list \<Rightarrow> (string \<times> PlayRecord) list" where
  "dedupStep record recordMap =
     (let key = recordKey record
      in if map_of recordMap key = None then AList.update key record recordMap else recordMap)"

text \<open>
  \<open>mergeAggregate\<close>: \<open>tm\<close> reads the property \<open>totalMinutes\<close> of a value. An aggregate object
  is truthy, so \<open>!result[key]\<close> holds exactly when the key is absent; a \<open>totalMinutes\<close> of 0 is
  falsy.
\<close>

definition mergeAggregateStep :: "('a \<Rightarrow> rat) \<Rightarrow> 'k \<times> 'a \<Rightarrow> ('k \<times> 'a) list \<Rightarrow> ('k \<times> 'a) list" where
  "mergeAggregateStep tm entry result =
     (case entry of (key, v) \<Rightarrow>
        (case map_of result key of
           None \<Rightarrow> AList.update key v result
         | Some cur \<Rightarrow>
             if tm v \<noteq> 0 \<and> tm cur \<noteq> 0
             then AList.update key (if tm v > tm cur then v else cur) result
             else result))"

definition mergeAggregate :: "('a \<Rightarrow> rat) \<Rightarrow> ('k \<times> 'a) list \<Rightarrow> ('k \<times> 'a) list \<Rightarrow> ('k \<times> 'a) list" where
  "mergeAggregate tm left right = fold (mergeAggregateStep tm) right left"

definition mergeStreak :: "Streak option \<Rightarrow> Streak option \<Rightarrow> Streak option" where
  "mergeStreak a b =
     (case a of
        None \<Rightarrow> b
      | Some sa \<Rightarrow>
          (case b of
             None \<Rightarrow> Some sa
           | Some sb \<Rightarrow>
               if dateTime (lastListenDate sa) > dateTime (lastListenDate sb) then Some sa else Some sb))"

text \<open>\<open>mergeExports\<close>: \<open>now\<close> is the value of \<open>Date.now()\<close>; only \<open>data\<close> of each side is read.\<close>

definition mergeExports :: "int \<Rightarrow> int \<times> ExportDoc \<Rightarrow> int \<times> ExportDoc \<Rightarrow> ExportDoc" where
  "mergeExports now local remote =
     (let records = orElse (docPlayRecords (snd local)) [] @ orElse (docPlayRecords (snd remote)) [];
          recordMap = fold dedupStep records []
      in \<lparr>version = Some 1,
          exportDate = Some now,
          docPlayRecords = Some (map snd recordMap),
          docDailyAggregates = Some (mergeAggregate DailyAggregate.totalMinutes
             (orElse (docDailyAggregates (snd local)) []) (orElse (docDailyAggregates (snd remote)) [])),
          docMonthlyAggregates = Some (mergeAggregate monthMinutes
             (orElse (docMonthlyAggregates (snd local)) []) (orElse (docMonthlyAggregates (snd remote)) [])),
          docStreak = mergeStreak (docStreak (snd local)) (docStreak (snd remote))\<rparr>)"

text \<open>
  The identity of a record: the tuple
  (songId, artistId, timestamp, durationListened, totalDuration).
\<close>

definition recordIdentity :: "PlayRecord \<Rightarrow> string \<times> string \<times> int \<times> int \<times> number" where
  "recordIdentity r = (songId r, artistId r, timestamp r, durationListened r, totalDuration r)"

text \<open>The records and the aggregate keys of a merged bundle.\<close>

definition mergedRecords :: "ExportDoc \<Rightarrow> PlayRecord list" where
  "mergedRecords m = orElse (docPlayRecords m) []"

definition dailyKeys :: "ExportDoc \<Rightarrow> isodate set" where
  "dailyKeys m = fst ` set (orElse (docDailyAggregates m) [])"

definition monthlyKeys :: "ExportDoc \<Rightarrow> yearmonth set" where
  "monthlyKeys m = fst ` set (orElse (docMonthlyAggregates m) [])"

text \<open>An export bundle holding the given records, and a daily aggregate with the given minutes.\<close>

definition docOf :: "PlayRecord list \<Rightarrow> ExportDoc" where
  "docOf rs = emptyDoc\<lparr>docPlayRecords := Some rs\<rparr>"

definition mkDaily :: "isodate \<Rightarrow> rat \<Rightarrow> nat \<Rightarrow> DailyAggregate" where
  "mkDaily day minutes n =
     \<lparr>date = day, totalMinutes = minutes, songsPlayed = n, uniqueSongs = n, uniqueArtists = n,
      topSongs = [], topArtists = [], genreBreakdown = [], hourlyBreakdown = replicate 24 0,
      skipCount = 0\<rparr>"

declare showNat.simps [simp del]

section \<open>Cloud reconciliation (backend.ts)\<close>

text \<open>
  The outcome of a request: the \<open>fetch\<close> (or reading its body as JSON) throws an error with
  a message, the response is not \<open>ok\<close> and has a body text (\<open>None\<close> when reading the text
  throws), or the response is \<open>ok\<close> and carries what the program reads from it.
\<close>

datatype 'a response = Threw string | NotOk "string option" | Ok 'a

text \<open>
  What one pass finds in its environment: the reply to each request it may send (a pass
  sends each kind of request at most once), whether the file write of \<open>save\<close> succeeds, the
  clock (read once per pass) and the SHA-256 hex digest of a text.
  \<^item> token endpoint: \<open>access_token\<close> and \<open>expires_in\<close> of the reply;
  \<^item> file list: the \<open>id\<close> of the first file, if any;
  \<^item> create: the \<open>id\<close> of the created file;
  \<^item> download: the text of the file.
\<close>

record NetEnv =
  tokenReply :: "(string option \<times> int option) response"
  listReply :: "string option response"
  createReply :: "string option response"
  downloadReply :: "wire response"
  uploadReply :: "unit response"
  fsOk :: bool
  clockNow :: int
  hashFn :: "wire \<Rightarrow> string"


text \<open>\<open>String.prototype.trim\<close> on ASCII white space.\<close>

definition isSpace :: "char \<Rightarrow> bool" where
  "isSpace c = (c \<in> set [CHR '' '', CHR 0x09, CHR 0x0A, CHR 0x0B, CHR 0x0C, CHR 0x0D])"

definition trim :: "string \<Rightarrow> string" where
  "trim s = rev (dropWhile isSpace (rev (dropWhile isSpace s)))"

text \<open>\<open>safeReadResponse\<close>\<close>

definition safeReadResponse :: "string option \<Rightarrow> string" where
  "safeReadResponse body = (case body of None \<Rightarrow> [] | Some t \<Rightarrow> take 300 t)"

definition send :: "request \<Rightarrow> StatsBackend \<Rightarrow> StatsBackend" where
  "send rq st = st\<lparr>netLog := netLog st @ [rq]\<rparr>"

text \<open>
  \<open>ensureAccessToken\<close>: \<open>cfg\<close> is the configuration the caller read, \<open>now\<close> the clock and
  \<open>reply\<close> the reply of the token endpoint. The result is the token or the error thrown.
\<close>

definition freshPersistedToken :: "StatsConfig \<Rightarrow> int \<Rightarrow> string option" where
  "freshPersistedToken cfg now =
     (case truthyStr (cloudSyncAccessToken cfg) of
        None \<Rightarrow> None
      | Some tok \<Rightarrow>
          (case truthyNum (cloudSyncAccessTokenExpiry cfg) of
             None \<Rightarrow> None
           | Some expiry \<Rightarrow> if expiry > now + 60000 then Some tok else None))"

definition freshSessionToken :: "StatsBackend \<Rightarrow> int \<Rightarrow> string option" where
  "freshSessionToken st now =
     (case truthyStr (sessionAccessToken st) of
        None \<Rightarrow> None
      | Some tok \<Rightarrow> if sessionAccessTokenExpiry st > now + 60000 then Some tok else None)"

definition ensureAccessToken ::
    "StatsConfig \<Rightarrow> int \<Rightarrow> (string option \<times> int option) response \<Rightarrow> StatsBackend \<Rightarrow>
     (error + string) \<times> StatsBackend" where
  "ensureAccessToken cfg now reply st =
     (case freshPersistedToken cfg now of
        Some tok \<Rightarrow> (Inr tok, st)
      | None \<Rightarrow>
          (case freshSessionToken st now of
             Some tok \<Rightarrow> (Inr tok, st)
           | None \<Rightarrow>
               if truthyStr (cloudSyncClientId cfg) = None \<or>
                  (truthyStr (cloudSyncRefreshToken cfg) = None \<and> truthyStr (sessionRefreshToken st) = None)
               then (Inl (ErrorMsg ''Missing refresh token. Reconnect Google Drive.''), st)
               else
                 (let refreshToken =
                        (case truthyStr (cloudSyncRefreshToken cfg) of
                           Some t \<Rightarrow> Some t
                         | None \<Rightarrow> sessionRefreshToken st);
                      st1 = send (TokenRefresh (orElse (cloudSyncClientId cfg) [])
                                    (orElse (truthyStr (cloudSyncClientSecret cfg)) [])
                                    (orElse (truthyStr refreshToken) [])) st
                  in case reply of
                       Threw m \<Rightarrow> (Inl (ErrorMsg m), st1)
                     | NotOk body \<Rightarrow>
                         (Inl (ErrorMsg (trim (''Failed to refresh Google token. '' @ safeReadResponse body))), st1)
                     | Ok json \<Rightarrow>
                         (case truthyStr (fst json) of
                            None \<Rightarrow> (Inl (ErrorMsg ''Missing access token.''), st1)
                          | Some accessToken \<Rightarrow>
                              (let expiry = now + orElse (snd json) 3600 * 1000 - 60000
                               in (Inr accessToken,
                                   st1\<lparr>sessionAccessToken := Some accessToken,
                                       sessionAccessTokenExpiry := expiry,
                                       config := (config st1)
                                         \<lparr>cloudSyncAccessToken := Some accessToken,
                                          cloudSyncAccessTokenExpiry := Some expiry,
                                          cloudSyncLastError := Some []\<rparr>\<rparr>))))))"




definition uploadDriveFile :: "string \<Rightarrow> NetEnv \<Rightarrow> string \<Rightarrow> wire \<Rightarrow> StatsBackend \<Rightarrow> (error + unit) \<times> StatsBackend" where
  "uploadDriveFile accessToken env fileId content st =
     (let st1 = send (Upload accessToken fileId content) st
      in case uploadReply env of
           Threw m \<Rightarrow> (Inl (ErrorMsg m), st1)
         | NotOk body \<Rightarrow> (Inl (ErrorMsg ''Failed to upload Drive file.''), st1)
         | Ok u \<Rightarrow> (Inr (), st1))"

text \<open>
  \<open>setConfig({cloudSyncLastSyncTime, cloudSyncLastHash, cloudSyncLastError: ''})\<close>, the
  update that ends every successful branch.
\<close>

definition recordSync :: "int \<Rightarrow> string \<Rightarrow> StatsBackend \<Rightarrow> StatsBackend" where
  "recordSync now h st =
     st\<lparr>config := (config st)\<lparr>cloudSyncLastSyncTime := Some now, cloudSyncLastHash := Some h,
                                cloudSyncLastError := Some []\<rparr>\<rparr>"


text \<open>
  The part of \<open>syncDriveNow\<close> after a successful download: compare the hashes, then merge,
  pull or push. \<open>d\<close> is the database, \<open>localJson\<close> its export.
\<close>

definition reconcile ::
    "StatsConfig \<Rightarrow> NetEnv \<Rightarrow> string \<Rightarrow> string \<Rightarrow> StatsDatabase \<Rightarrow> wire \<Rightarrow> wire \<Rightarrow> StatsBackend \<Rightarrow>
     (error + string) \<times> StatsBackend" where
  "reconcile cfg env accessToken fileId d localJson remoteJson st =
     (let localHash = hashFn env localJson;
          localParsed = parseExport localJson;
          remoteHash = hashFn env remoteJson
      in if remoteHash = localHash
         then (Inr ''Cloud sync up to date.'', recordSync (clockNow env) localHash st)
         else
           (let remoteParsed = parseExport remoteJson;
                lastSyncHash = orElse (cloudSyncLastHash cfg) [];
                localChanged = (lastSyncHash \<noteq> [] \<and> localHash \<noteq> lastSyncHash);
                remoteChanged = (lastSyncHash \<noteq> [] \<and> remoteHash \<noteq> lastSyncHash)
            in if localChanged \<and> remoteChanged
               then
                 (let merged = mergeExports (clockNow env) localParsed remoteParsed;
                      mergedJson = stringify merged
                  in case importData (fsOk env) mergedJson d of
                       Inl e \<Rightarrow> (Inl e, st)
                     | Inr d' \<Rightarrow>
                         (case uploadDriveFile accessToken env fileId mergedJson (st\<lparr>db := Some d'\<rparr>) of
                            (Inl e, st1) \<Rightarrow> (Inl e, st1)
                          | (Inr u, st1) \<Rightarrow>
                              (Inr ''Cloud sync merged changes.'',
                               recordSync (clockNow env) (hashFn env mergedJson) st1)))
               else if fst remoteParsed > fst localParsed
               then
                 (case importData (fsOk env) remoteJson d of
                    Inl e \<Rightarrow> (Inl e, st)
                  | Inr d' \<Rightarrow>
                      (Inr ''Cloud sync pulled updates.'',
                       recordSync (clockNow env) remoteHash (st\<lparr>db := Some d'\<rparr>)))
               else
                 (case uploadDriveFile accessToken env fileId localJson st of
                    (Inl e, st1) \<Rightarrow> (Inl e, st1)
                  | (Inr u, st1) \<Rightarrow>
                      (Inr ''Cloud sync pushed updates.'', recordSync (clockNow env) localHash st1))))"



text \<open>What a pass did: whether it imported a bundle into the store, and whether it uploaded.\<close>

definition uploads :: "StatsBackend \<Rightarrow> request list" where
  "uploads st = filter (\<lambda>rq. case rq of Upload t f c \<Rightarrow> True | Create t c \<Rightarrow> True | _ \<Rightarrow> False) (netLog st)"

definition refreshCalls :: "StatsBackend \<Rightarrow> request list" where
  "refreshCalls st = filter (\<lambda>rq. case rq of TokenRefresh c s t \<Rightarrow> True | _ \<Rightarrow> False) (netLog st)"

subsection \<open>Concrete passes\<close>

text \<open>
  A configuration with a cached access token that is fresh until the instant 40000 and a
  known file id, before any pass has recorded a hash; a digest that tells texts apart by
  their export instant and the number of their records; and an environment that serves a
  given remote text at a given clock.
\<close>

definition exampleConfig :: StatsConfig where
  "exampleConfig =
     defaultConfig\<lparr>cloudSyncEnabled := True, cloudSyncClientId := Some ''client'',
       cloudSyncAccessToken := Some ''tok'', cloudSyncAccessTokenExpiry := Some 100000,
       cloudSyncFileId := Some ''file''\<rparr>"

definition exampleHash :: "wire \<Rightarrow> string" where
  "exampleHash w =
     (case w of
        Unparseable s \<Rightarrow> s
      | ParsedNull \<Rightarrow> ''null''
      | Parsed p \<Rightarrow>
          showInt (orElse (exportDate p) 0) @ '':'' @ showNat (length (orElse (docPlayRecords p) [])))"

definition exampleEnv :: "wire \<Rightarrow> int \<Rightarrow> NetEnv" where
  "exampleEnv remote now =
     \<lparr>tokenReply = Ok (Some ''fresh'', Some 3600), listReply = Ok (Some ''file''),
      createReply = Ok (Some ''file''), downloadReply = Ok remote, uploadReply = Ok (),
      fsOk = True, clockNow = now, hashFn = exampleHash\<rparr>"






text \<open>
  The configuration of the example with an access token that expired one millisecond
  before the instant 10, and a refresh token.
\<close>

definition expiredConfig :: StatsConfig where
  "expiredConfig =
     exampleConfig\<lparr>cloudSyncAccessTokenExpiry := Some 9, cloudSyncRefreshToken := Some ''refresh''\<rparr>"

section \<open>Statistics (backend.ts, computeStats)\<close>

text \<open>
  The entries of the three tally maps of \<open>computeStats\<close>. Their fields carry a prefix:
  \<open>s\<close> for \<open>songPlayMap\<close>, \<open>a\<close> for \<open>artistPlayMap\<close>, \<open>k\<close> for \<open>skipMap\<close>.
\<close>

record SongEntry =
  sTitle :: string
  sArtist :: string
  sPlays :: nat
  sMinutes :: rat
  sImageUrl :: "string option"

record ArtistEntry =
  aName :: string
  aPlays :: nat
  aMinutes :: rat
  aImageUrl :: "string option"

record SkipEntry =
  kTitle :: string
  kArtist :: string
  kSkips :: nat
  kPlays :: nat
  kImageUrl :: "string option"

text \<open>
  The state of the loop over the records: the three tally maps, the listening clock, the
  minutes per day and the minutes per month and artist. A \<open>Map\<close> keeps insertion order.
\<close>

record StatsAcc =
  songPlayMap :: "(string \<times> SongEntry) list"
  artistPlayMap :: "(string \<times> ArtistEntry) list"
  clockAcc :: "rat list"
  dailyMap :: "(isodate \<times> rat) list"
  monthlyArtists :: "(yearmonth \<times> (string \<times> rat) list) list"
  skipMap :: "(string \<times> SkipEntry) list"

text \<open>
  The result. An entry of \<open>topSongs\<close>, \<open>topArtists\<close> and \<open>skipStats\<close> is the id with the
  entry, whose minutes are rounded; \<open>anthem\<close> is (id, title, artist, plays),
  \<open>peakListeningDay\<close> (date, minutes), a first song (title, artist, date), a monthly
  obsession (yearMonth, artist, minutes). The four fields whose names are also fields of
  \<open>DailyAggregate\<close> or \<open>Streak\<close> carry a prime here.
\<close>

record StatsData =
  totalMinutes' :: int
  totalSongs :: nat
  topSongs' :: "(string \<times> SongEntry) list"
  topArtists' :: "(string \<times> ArtistEntry) list"
  anthem :: "(string \<times> string \<times> string \<times> nat) option"
  peakListeningDay :: "(isodate \<times> int) option"
  listeningClock :: "int list"
  currentStreak' :: int
  firstSongEver :: "(string \<times> string \<times> isodate) option"
  firstSongThisYear :: "(string \<times> string \<times> isodate) option"
  firstSongThisMonth :: "(string \<times> string \<times> isodate) option"
  monthlyObsessions :: "(yearmonth \<times> string \<times> int) list"
  skipStats :: "(string \<times> SkipEntry) list"
  skipRate :: int

definition isQualifiedPlay :: "PlayRecord \<Rightarrow> bool" where
  "isQualifiedPlay record = (durationListened record \<ge> 30)"

text \<open>
  \<open>const e = m.get(k); if (e) { ...update e in place... } else { m.set(k, fresh) }\<close>
\<close>

definition upsert :: "'k \<Rightarrow> 'e \<Rightarrow> ('e \<Rightarrow> 'e) \<Rightarrow> ('k \<times> 'e) list \<Rightarrow> ('k \<times> 'e) list" where
  "upsert k fresh change m =
     (case map_of m k of
        Some e \<Rightarrow> AList.update k (change e) m
      | None \<Rightarrow> AList.update k fresh m)"

text \<open>\<open>if (!e.imageUrl && url) e.imageUrl = url\<close>\<close>

definition firstImage :: "string option \<Rightarrow> string option \<Rightarrow> string option" where
  "firstImage current url =
     (if truthyStr current = None \<and> truthyStr url \<noteq> None then url else current)"

text \<open>
  The three tally maps: for each, the entry stored for an id seen for the first time, the
  change made to the entry of an id seen before, and the step of the loop.
\<close>

definition songFresh :: "PlayRecord \<Rightarrow> SongEntry" where
  "songFresh record =
     \<lparr>sTitle = songTitle record, sArtist = artistName record,
      sPlays = (if isQualifiedPlay record then 1 else 0),
      sMinutes = minutesOf record, sImageUrl = thumbnailUrl record\<rparr>"

definition songChange :: "PlayRecord \<Rightarrow> SongEntry \<Rightarrow> SongEntry" where
  "songChange record e =
     e\<lparr>sPlays := sPlays e + (if isQualifiedPlay record then 1 else 0),
       sMinutes := fadd (sMinutes e) (minutesOf record),
       sImageUrl := firstImage (sImageUrl e) (thumbnailUrl record)\<rparr>"

definition songStep :: "PlayRecord \<Rightarrow> (string \<times> SongEntry) list \<Rightarrow> (string \<times> SongEntry) list" where
  "songStep record = upsert (songId record) (songFresh record) (songChange record)"

definition artistFresh :: "PlayRecord \<Rightarrow> ArtistEntry" where
  "artistFresh record =
     \<lparr>aName = artistName record,
      aPlays = (if isQualifiedPlay record then 1 else 0),
      aMinutes = minutesOf record, aImageUrl = artistImageUrl record\<rparr>"

definition artistChange :: "PlayRecord \<Rightarrow> ArtistEntry \<Rightarrow> ArtistEntry" where
  "artistChange record e =
     e\<lparr>aPlays := aPlays e + (if isQualifiedPlay record then 1 else 0),
       aMinutes := fadd (aMinutes e) (minutesOf record),
       aImageUrl := firstImage (aImageUrl e) (artistImageUrl record)\<rparr>"

definition artistStep :: "PlayRecord \<Rightarrow> (string \<times> ArtistEntry) list \<Rightarrow> (string \<times> ArtistEntry) list" where
  "artistStep record = upsert (artistId record) (artistFresh record) (artistChange record)"

definition skipFresh :: "PlayRecord \<Rightarrow> SkipEntry" where
  "skipFresh record =
     \<lparr>kTitle = songTitle record, kArtist = artistName record,
      kSkips = (if skipped record then 1 else 0),
      kPlays = (if isQualifiedPlay record then 1 else 0),
      kImageUrl = thumbnailUrl record\<rparr>"

definition skipChange :: "PlayRecord \<Rightarrow> SkipEntry \<Rightarrow> SkipEntry" where
  "skipChange record e =
     e\<lparr>kPlays := kPlays e + (if isQualifiedPlay record then 1 else 0),
       kSkips := kSkips e + (if skipped record then 1 else 0),
       kImageUrl := firstImage (kImageUrl e) (thumbnailUrl record)\<rparr>"

definition skipStep :: "PlayRecord \<Rightarrow> (string \<times> SkipEntry) list \<Rightarrow> (string \<times> SkipEntry) list" where
  "skipStep record = upsert (songId record) (skipFresh record) (skipChange record)"

text \<open>\<open>m.set(k, (m.get(k) || 0) + x)\<close>\<close>

definition addTo :: "'k \<Rightarrow> rat \<Rightarrow> ('k \<times> rat) list \<Rightarrow> ('k \<times> rat) list" where
  "addTo k x m = AList.update k (fadd (orElse (map_of m k) 0) x) m"

text \<open>
  The body of the loop. \<open>tz\<close> gives the local offset for \<open>getHours\<close>; \<open>monthOf\<close> gives the
  month of a day, the \<open>YYYY-MM\<close> prefix of its ISO date, as a month number.
\<close>

definition statsStep :: "(int \<Rightarrow> int) \<Rightarrow> (isodate \<Rightarrow> yearmonth) \<Rightarrow> PlayRecord \<Rightarrow> StatsAcc \<Rightarrow> StatsAcc" where
  "statsStep tz monthOf record acc =
     (let hour = getHours tz (timestamp record);
          day = dateOf (timestamp record);
          ym = monthOf (dateOf (timestamp record));
          monthMap = orElse (map_of (monthlyArtists acc) ym) []
      in \<lparr>songPlayMap = songStep record (songPlayMap acc),
          artistPlayMap = artistStep record (artistPlayMap acc),
          clockAcc = (clockAcc acc)[hour := fadd (clockAcc acc ! hour) (minutesOf record)],
          dailyMap = addTo day (minutesOf record) (dailyMap acc),
          monthlyArtists = AList.update ym (addTo (artistId record) (minutesOf record) monthMap)
             (monthlyArtists acc),
          skipMap = skipStep record (skipMap acc)\<rparr>)"

definition emptyAcc :: StatsAcc where
  "emptyAcc =
     \<lparr>songPlayMap = [], artistPlayMap = [], clockAcc = replicate 24 0, dailyMap = [],
      monthlyArtists = [], skipMap = []\<rparr>"

text \<open>\<open>/^[a-zA-Z0-9_-]{11}$/.test(id)\<close> and the cover fallback.\<close>

definition idChars :: string where
  "idChars = ''abcdefghijklmnopqrstuvwxyzABCDEFGHIJKLMNOPQRSTUVWXYZ0123456789_-''"

definition isVideoId :: "string \<Rightarrow> bool" where
  "isVideoId s = (length s = 11 \<and> list_all (\<lambda>c. c \<in> set idChars) s)"

definition coverUrl :: "string \<Rightarrow> string option \<Rightarrow> string option" where
  "coverUrl i imageUrl =
     (case truthyStr imageUrl of
        Some u \<Rightarrow> Some u
      | None \<Rightarrow> if isVideoId i then Some (''https://i.ytimg.com/vi/'' @ i @ ''/hqdefault.jpg'') else None)"

definition topSongsOf :: "(string \<times> SongEntry) list \<Rightarrow> (string \<times> SongEntry) list" where
  "topSongsOf m =
     map (\<lambda>(i, e). (i, e\<lparr>sMinutes := of_int (jsRound (sMinutes e)), sImageUrl := coverUrl i (sImageUrl e)\<rparr>))
       (take 5 (sort_key (\<lambda>(i, e). - int (sPlays e)) m))"

definition topArtistsOf :: "(string \<times> ArtistEntry) list \<Rightarrow> (string \<times> ArtistEntry) list" where
  "topArtistsOf m =
     map (\<lambda>(i, e). (i, e\<lparr>aMinutes := of_int (jsRound (aMinutes e))\<rparr>))
       (take 5 (sort_key (\<lambda>(i, e). - aMinutes e) m))"

definition skipStatsOf :: "(string \<times> SkipEntry) list \<Rightarrow> (string \<times> SkipEntry) list" where
  "skipStatsOf m =
     take 10 (sort_key (\<lambda>(i, e). - int (kSkips e)) (filter (\<lambda>(i, e). kSkips e > 0) m))"

text \<open>The day with the most minutes; a later day replaces the peak only with more minutes.\<close>

definition peakStep :: "isodate \<times> rat \<Rightarrow> rat \<times> (isodate \<times> int) option \<Rightarrow> rat \<times> (isodate \<times> int) option" where
  "peakStep entry best =
     (case entry of (day, minutes) \<Rightarrow>
        if minutes > fst best then (minutes, Some (day, jsRound minutes)) else best)"

definition peakOf :: "(isodate \<times> rat) list \<Rightarrow> (isodate \<times> int) option" where
  "peakOf m = snd (fold peakStep m (0, None))"

text \<open>
  The obsession of a month: the first artist after sorting by minutes, descending;
  \<open>topArtist[0]\<close> on an empty list would be a property read on \<open>undefined\<close>.
\<close>

definition obsessionOf :: "PlayRecord list \<Rightarrow> yearmonth \<times> (string \<times> rat) list \<Rightarrow>
    error + (yearmonth \<times> string \<times> int)" where
  "obsessionOf allRecords entry =
     (case entry of (ym, artistMap) \<Rightarrow>
        (case sort_key (\<lambda>(a, minutes). - minutes) artistMap of
           [] \<Rightarrow> Inl TypeError
         | (a, minutes) # rest \<Rightarrow>
             Inr (ym,
                  (case find (\<lambda>r. artistId r = a) allRecords of
                     None \<Rightarrow> ''Unknown''
                   | Some r \<Rightarrow> if artistName r = [] then ''Unknown'' else artistName r),
                  jsRound minutes)))"

fun obsessionsOf :: "PlayRecord list \<Rightarrow> (yearmonth \<times> (string \<times> rat) list) list \<Rightarrow>
    error + (yearmonth \<times> string \<times> int) list" where
  "obsessionsOf allRecords [] = Inr []"
| "obsessionsOf allRecords (entry # rest) =
     (case obsessionOf allRecords entry of
        Inl e \<Rightarrow> Inl e
      | Inr x \<Rightarrow>
          (case obsessionsOf allRecords rest of
             Inl e \<Rightarrow> Inl e
           | Inr xs \<Rightarrow> Inr (x # xs)))"

definition firstSong :: "PlayRecord option \<Rightarrow> (string \<times> string \<times> isodate) option" where
  "firstSong r = map_option (\<lambda>r. (songTitle r, artistName r, dateOf (timestamp r))) r"

text \<open>
  \<open>computeStats\<close>: \<open>yearOf\<close> is \<open>getFullYear\<close> of an instant, \<open>now\<close> the clock.
\<close>

definition computeStats ::
    "(int \<Rightarrow> int) \<Rightarrow> (isodate \<Rightarrow> yearmonth) \<Rightarrow> (int \<Rightarrow> int) \<Rightarrow> int \<Rightarrow> StatsBackend \<Rightarrow> error + StatsData" where
  "computeStats tz monthOf yearOf now st =
     (case db st of
        None \<Rightarrow> Inl (ErrorMsg ''DB not initialized'')
      | Some d \<Rightarrow>
          (let allRecords = getPlayRecords None None d;
               minutes = jsRound (foldl (\<lambda>sum r. fadd sum (minutesOf r)) 0 allRecords);
               songs = length (filter isQualifiedPlay allRecords);
               acc = fold (statsStep tz monthOf) allRecords emptyAcc;
               songsTop = topSongsOf (songPlayMap acc);
               sortedRecords = sort_key timestamp allRecords;
               totalSkips = length (filter skipped allRecords)
           in case obsessionsOf allRecords (monthlyArtists acc) of
                Inl e \<Rightarrow> Inl e
              | Inr obsessions \<Rightarrow>
                  Inr \<lparr>totalMinutes' = minutes,
                       totalSongs = songs,
                       topSongs' = songsTop,
                       topArtists' = topArtistsOf (artistPlayMap acc),
                       anthem = (case songsTop of [] \<Rightarrow> None
                                 | (i, e) # rest \<Rightarrow> Some (i, sTitle e, sArtist e, sPlays e)),
                       peakListeningDay = peakOf (dailyMap acc),
                       listeningClock = map jsRound (clockAcc acc),
                       currentStreak' = (case getStreak d of None \<Rightarrow> 0 | Some s \<Rightarrow> currentStreak s),
                       firstSongEver = firstSong (case sortedRecords of [] \<Rightarrow> None | r # rest \<Rightarrow> Some r),
                       firstSongThisYear = firstSong (find (\<lambda>r. yearOf (timestamp r) = yearOf now) sortedRecords),
                       firstSongThisMonth = None,
                       monthlyObsessions = sort_key fst obsessions,
                       skipStats = skipStatsOf (skipMap acc),
                       skipRate = min 100 (jsRound (fmul (fdiv (of_nat totalSkips) (of_nat (max 1 (length allRecords)))) 100))\<rparr>))"

text \<open>
  What the claims say of the tallies. The play count under an id is the number of records
  with that id that listened for at least 30 seconds. The minutes of a tally entry are
  those of its first record, to which those of each later record with the id are added.
\<close>

definition qualifiedPlays :: "(PlayRecord \<Rightarrow> string) \<Rightarrow> string \<Rightarrow> PlayRecord list \<Rightarrow> nat" where
  "qualifiedPlays key k rs = length (filter (\<lambda>r. key r = k \<and> durationListened r \<ge> 30) rs)"

definition tallyMinutes :: "PlayRecord list \<Rightarrow> rat option" where
  "tallyMinutes rs =
     (case rs of
        [] \<Rightarrow> None
      | r # rest \<Rightarrow> Some (foldl (\<lambda>sum x. fadd sum (minutesOf x)) (minutesOf r) rest))"

text \<open>The tally maps that \<open>computeStats\<close> builds from a database.\<close>

definition tallies :: "(int \<Rightarrow> int) \<Rightarrow> (isodate \<Rightarrow> yearmonth) \<Rightarrow> StatsDatabase \<Rightarrow> StatsAcc" where
  "tallies tz monthOf d = fold (statsStep tz monthOf) (getPlayRecords None None d) emptyAcc"

section \<open>Verification\<close>

subsection \<open>Queries\<close>

lemma newestFirst_sort_key:
  "newestFirst (sort_key (\<lambda>r. - timestamp r) rs)"
proof -
  have "sorted (map (\<lambda>r. - timestamp r) (sort_key (\<lambda>r. - timestamp r) rs))"
    by (rule sorted_sort_key)
  then show ?thesis
    by (simp add: newestFirst_def sorted_wrt_map)
qed

text \<open>
  C7 (amended). With both bounds given and nonzero, with only a nonzero start bound, and with
  no bound at all, \<open>getPlayRecords\<close> returns exactly the stored records within the bounds,
  newest first.
\<close>

theorem getPlayRecords_within_bounds:
  assumes "endDate \<noteq> None \<longrightarrow> startDate \<noteq> None"
    and "startDate \<noteq> Some 0" and "endDate \<noteq> Some 0"
  shows "mset (getPlayRecords startDate endDate d) =
           filter_mset (withinBounds startDate endDate) (mset (playRecords (data d)))
         \<and> newestFirst (getPlayRecords startDate endDate d)"
proof
  show "mset (getPlayRecords startDate endDate d) =
          filter_mset (withinBounds startDate endDate) (mset (playRecords (data d)))"
    using assms
    by (cases startDate; cases endDate)
       (auto simp: getPlayRecords_def truthyNum_def withinBounds_def [abs_def] Let_def
             intro: filter_mset_cong)
  show "newestFirst (getPlayRecords startDate endDate d)"
    by (simp add: getPlayRecords_def Let_def newestFirst_sort_key)
qed

theorem getPlayRecords_within_bounds_witness:
  "mset (getPlayRecords (Some 5) (Some 20) (dbOf [mkRecord ''a'' ''x'' 10 40, mkRecord ''b'' ''y'' 30 40])) =
     filter_mset (withinBounds (Some 5) (Some 20))
       (mset (playRecords (data (dbOf [mkRecord ''a'' ''x'' 10 40, mkRecord ''b'' ''y'' 30 40]))))
   \<and> newestFirst (getPlayRecords (Some 5) (Some 20) (dbOf [mkRecord ''a'' ''x'' 10 40, mkRecord ''b'' ''y'' 30 40]))"
  using getPlayRecords_within_bounds [of "Some 20" "Some 5"
      "dbOf [mkRecord ''a'' ''x'' 10 40, mkRecord ''b'' ''y'' 30 40]"]
  by simp

text \<open>
  C7 as stated fails: an end bound without a start bound is ignored, so a record newer than
  the end bound is returned.
\<close>

theorem getPlayRecords_end_only_counterexample:
  "mkRecord ''a'' ''x'' 10 40 \<in> set (getPlayRecords None (Some 5) (dbOf [mkRecord ''a'' ''x'' 10 40]))
   \<and> \<not> withinBounds None (Some 5) (mkRecord ''a'' ''x'' 10 40)"
  by (simp add: getPlayRecords_def truthyNum_def withinBounds_def dbOf_def newDatabase_def
        emptySchema_def mkRecord_def)

subsection \<open>Streak\<close>

lemma diffDays_eq: "(dateTime a - dateTime b) div dayMs = a - b"
proof -
  have "dateTime a - dateTime b = (a - b) * 86400000"
    by (simp add: dateTime_def algebra_simps)
  then show ?thesis by (simp add: dayMs_def)
qed

lemma updateStreak_cases_aux:
  assumes "db st = Some d"
  shows "updateStreak ts st =
     (case getStreak d of
        None \<Rightarrow> st\<lparr>db := Some (dbUpdateStreak (dateOf ts) 1 d)\<rparr>
      | Some s \<Rightarrow>
          if diffDaysOf ts s = 0 then st
          else if diffDaysOf ts s = 1
          then st\<lparr>db := Some (dbUpdateStreak (dateOf ts) (currentStreak s + 1) d)\<rparr>
          else if diffDaysOf ts s > 1
          then st\<lparr>db := Some (dbUpdateStreak (dateOf ts) 1 d)\<rparr>
          else st)"
  using assms
  by (simp add: updateStreak_def diffDays_eq diffDaysOf_def Let_def split: option.splits)

lemma handler_streak:
  assumes "db st = Some d"
  shows "\<exists>d'. db (addRecordHandler r st) = Some d' \<and>
           getStreak d' =
             (case getStreak d of
                None \<Rightarrow> Some \<lparr>lastListenDate = dateOf (timestamp r), currentStreak = 1\<rparr>
              | Some s \<Rightarrow>
                  if diffDaysOf (timestamp r) s = 1
                  then Some \<lparr>lastListenDate = dateOf (timestamp r), currentStreak = currentStreak s + 1\<rparr>
                  else if diffDaysOf (timestamp r) s > 1
                  then Some \<lparr>lastListenDate = dateOf (timestamp r), currentStreak = 1\<rparr>
                  else Some s)"
  using assms
  by (auto simp: addRecordHandler_def updateStreak_def diffDays_eq diffDaysOf_def Let_def
        getStreak_def addPlayRecord_def dbUpdateStreak_def markDirty_def split: option.splits)

lemma streak_sequence:
  assumes st: "db st = Some d" and none: "getStreak d = None"
    and d1: "dateOf (timestamp r1) = D" and d2: "dateOf (timestamp r2) = D"
    and d3: "dateOf (timestamp r3) = D + 1" and d4: "dateOf (timestamp r4) = D + 3"
  shows "streakCounts [r1, r2, r3, r4] st = [Some 1, Some 1, Some 2, Some 1]"
proof -
  define s1 where "s1 = addRecordHandler r1 st"
  define s2 where "s2 = addRecordHandler r2 s1"
  define s3 where "s3 = addRecordHandler r3 s2"
  define s4 where "s4 = addRecordHandler r4 s3"
  from handler_streak [OF st, of r1] none d1 obtain e1 where
    e1: "db s1 = Some e1" "getStreak e1 = Some \<lparr>lastListenDate = D, currentStreak = 1\<rparr>"
    by (auto simp: s1_def)
  from handler_streak [OF e1(1), of r2] e1(2) d2 obtain e2 where
    e2: "db s2 = Some e2" "getStreak e2 = Some \<lparr>lastListenDate = D, currentStreak = 1\<rparr>"
    by (auto simp: s2_def diffDaysOf_def)
  from handler_streak [OF e2(1), of r3] e2(2) d3 obtain e3 where
    e3: "db s3 = Some e3" "getStreak e3 = Some \<lparr>lastListenDate = D + 1, currentStreak = 2\<rparr>"
    by (auto simp: s3_def diffDaysOf_def)
  from handler_streak [OF e3(1), of r4] e3(2) d4 obtain e4 where
    e4: "db s4 = Some e4" "getStreak e4 = Some \<lparr>lastListenDate = D + 3, currentStreak = 1\<rparr>"
    by (auto simp: s4_def diffDaysOf_def)
  have "streakCounts [r1, r2, r3, r4] st = [streakCount s1, streakCount s2, streakCount s3, streakCount s4]"
    by (simp add: Let_def s1_def s2_def s3_def s4_def)
  then show ?thesis
    using e1 e2 e3 e4 by (simp add: streakCount_def)
qed

text \<open>
  C5. For an event at \<open>ts\<close>, \<open>updateStreak\<close> creates a streak of 1 when none is stored;
  otherwise, with \<open>diffDays\<close> the day difference between the event's date and the stored
  \<open>lastListenDate\<close>: 0 leaves the record unchanged, 1 increments the count and advances the
  date, more than 1 resets the count to 1 and advances the date, a negative difference leaves
  the record unchanged. Events on days D, D, D+1, D+3 then give the counts 1, 1, 2, 1.
\<close>

theorem updateStreak_four_case_rule:
  assumes "db st = Some d"
  shows "updateStreak ts st =
          (case getStreak d of
             None \<Rightarrow> st\<lparr>db := Some (dbUpdateStreak (dateOf ts) 1 d)\<rparr>
           | Some s \<Rightarrow>
               if diffDaysOf ts s = 0 then st
               else if diffDaysOf ts s = 1
               then st\<lparr>db := Some (dbUpdateStreak (dateOf ts) (currentStreak s + 1) d)\<rparr>
               else if diffDaysOf ts s > 1
               then st\<lparr>db := Some (dbUpdateStreak (dateOf ts) 1 d)\<rparr>
               else st)
        \<and> (getStreak d = None \<and> dateOf (timestamp r1) = D \<and> dateOf (timestamp r2) = D \<and>
           dateOf (timestamp r3) = D + 1 \<and> dateOf (timestamp r4) = D + 3 \<longrightarrow>
             streakCounts [r1, r2, r3, r4] st = [Some 1, Some 1, Some 2, Some 1])"
  using updateStreak_cases_aux [OF assms] streak_sequence [OF assms] by blast

theorem updateStreak_four_case_rule_witness:
  "db (backendOf newDatabase) = Some newDatabase \<and> getStreak newDatabase = None \<and>
   dateOf (timestamp (mkRecord ''a'' ''x'' 5 40)) = 0 \<and>
   dateOf (timestamp (mkRecord ''b'' ''x'' 90 40)) = 0 \<and>
   dateOf (timestamp (mkRecord ''c'' ''x'' 86400000 40)) = 0 + 1 \<and>
   dateOf (timestamp (mkRecord ''d'' ''x'' 259200007 40)) = 0 + 3 \<and>
   streakCounts [mkRecord ''a'' ''x'' 5 40, mkRecord ''b'' ''x'' 90 40,
       mkRecord ''c'' ''x'' 86400000 40, mkRecord ''d'' ''x'' 259200007 40] (backendOf newDatabase) =
     [Some 1, Some 1, Some 2, Some 1] \<and>
   streakCount (updateStreak 86400001 (backendOf (dbUpdateStreak 0 3 newDatabase))) = Some 4"
  using updateStreak_four_case_rule [of "backendOf newDatabase" newDatabase 5
      "mkRecord ''a'' ''x'' 5 40" 0 "mkRecord ''b'' ''x'' 90 40"
      "mkRecord ''c'' ''x'' 86400000 40" "mkRecord ''d'' ''x'' 259200007 40"]
    updateStreak_four_case_rule [of "backendOf (dbUpdateStreak 0 3 newDatabase)"
      "dbUpdateStreak 0 3 newDatabase" 86400001]
  by (simp add: backendOf_def newDatabase_def emptySchema_def getStreak_def mkRecord_def
        dateOf_def diffDaysOf_def dbUpdateStreak_def markDirty_def streakCount_def)

subsection \<open>Daily aggregation\<close>

lemma keys_bump: "fst ` set (bump k m) = insert k (fst ` set m)"
  by (simp add: bump_def dom_update)

lemma keys_fold_bump:
  "fst ` set (fold (\<lambda>r. bump (key r)) rs m) = fst ` set m \<union> key ` set rs"
  by (induction rs arbitrary: m) (auto simp: keys_bump)

lemma fold_dayStep_songs:
  "fst (fold (dayStep tz) rs acc) = fold (\<lambda>r. bump (songId r)) rs (fst acc)"
  by (induction rs arbitrary: acc) (auto simp: dayStep_def Let_def split: prod.splits)

lemma fold_dayStep_artists:
  "fst (snd (fold (dayStep tz) rs acc)) = fold (\<lambda>r. bump (artistId r)) rs (fst (snd acc))"
  by (induction rs arbitrary: acc) (auto simp: dayStep_def Let_def split: prod.splits)

lemma topTen_subset: "set (topTen m) \<subseteq> set m"
  using set_take_subset [of 10 "sort_key (\<lambda>e. - int (snd e)) m"] by (simp add: topTen_def)

lemma describeTop_ok:
  assumes "fst ` set es \<subseteq> key ` set records"
  shows "\<exists>ys. describeTop key label records es = Inr ys"
  using assms
proof (induction es)
  case Nil
  then show ?case by simp
next
  case (Cons e es)
  obtain i plays where e: "e = (i, plays)" by (cases e)
  from Cons.prems e have "\<exists>r\<in>set records. key r = i" by auto
  then obtain r where "find (\<lambda>r. key r = i) records = Some r"
    by (cases "find (\<lambda>r. key r = i) records") (auto simp: find_None_iff)
  moreover from Cons obtain ys where "describeTop key label records es = Inr ys" by auto
  ultimately show ?case using e by simp
qed

lemma buildDailyAggregate_ok: "\<exists>agg. buildDailyAggregate tz today records = Inr agg"
proof -
  obtain songMap artistMap hourlyMap nSkips where
    f: "fold (dayStep tz) records ([], [], replicate 24 0, 0) = (songMap, artistMap, hourlyMap, nSkips)"
    by (metis prod_cases4)
  have "songMap = fold (\<lambda>r. bump (songId r)) records []"
    using fold_dayStep_songs [of tz records "([], [], replicate 24 0, 0)"] f by simp
  then have "fst ` set (topTen songMap) \<subseteq> songId ` set records"
    using topTen_subset [of songMap] keys_fold_bump [of songId records "[]"] by auto
  then obtain songs where s: "describeTop songId songTitle records (topTen songMap) = Inr songs"
    using describeTop_ok by blast
  have "artistMap = fold (\<lambda>r. bump (artistId r)) records []"
    using fold_dayStep_artists [of tz records "([], [], replicate 24 0, 0)"] f by simp
  then have "fst ` set (topTen artistMap) \<subseteq> artistId ` set records"
    using topTen_subset [of artistMap] keys_fold_bump [of artistId records "[]"] by auto
  then obtain artists where a: "describeTop artistId artistName records (topTen artistMap) = Inr artists"
    using describeTop_ok by blast
  show ?thesis
    by (simp add: buildDailyAggregate_def f s a Let_def)
qed

lemma in_day_iff:
  "(dateTime day \<le> t \<and> t \<le> dateTime day + 24 * 60 * 60 * 1000 - 1) \<longleftrightarrow> dateOf t = day"
  unfolding dateTime_def dateOf_def by auto

lemma aggregateDailyStats_unfold:
  "aggregateDailyStats tz now st =
     (case db st of
        None \<Rightarrow> Inr st
      | Some d \<Rightarrow>
          if todayRecords now d = [] then Inr st
          else (case buildDailyAggregate tz (dateOf now) (todayRecords now d) of
                  Inl e \<Rightarrow> Inl e
                | Inr agg \<Rightarrow> Inr (st\<lparr>db := Some (saveDailyAggregate (dateOf now) agg d)\<rparr>)))"
  by (simp add: aggregateDailyStats_def todayRecords_def Let_def split: option.splits)

lemma records_today:
  assumes "dateOf now \<noteq> 0"
  shows "todayRecords now d = sort_key (\<lambda>r. - timestamp r) (recordsOfDay (dateOf now) d)"
proof -
  define day where "day = dateOf now"
  have nz: "dateTime day \<noteq> 0" "dateTime day + 24 * 60 * 60 * 1000 - 1 \<noteq> 0"
    using assms unfolding dateTime_def day_def by auto
  have "filter (\<lambda>r. dateTime day \<le> timestamp r \<and> timestamp r \<le> dateTime day + 24 * 60 * 60 * 1000 - 1)
          (playRecords (data d)) = recordsOfDay day d"
    unfolding recordsOfDay_def using in_day_iff by (intro filter_cong) auto
  then show ?thesis
    using nz by (simp add: todayRecords_def getPlayRecords_def truthyNum_def Let_def day_def)
qed

lemma todayRecords_saveDailyAggregate:
  "todayRecords now (saveDailyAggregate day agg d) = todayRecords now d"
  by (simp add: todayRecords_def getPlayRecords_def saveDailyAggregate_def markDirty_def)

lemma todayRecords_same_day:
  "dateOf now' = dateOf now \<Longrightarrow> todayRecords now' d = todayRecords now d"
  by (simp add: todayRecords_def)

lemma saveDailyAggregate_idem:
  "saveDailyAggregate day agg (saveDailyAggregate day agg d) = saveDailyAggregate day agg d"
  by (simp add: saveDailyAggregate_def markDirty_def)

lemma aggregate_total: "\<exists>st'. aggregateDailyStats tz now st = Inr st'"
proof (cases "db st")
  case None
  then show ?thesis by (simp add: aggregateDailyStats_unfold)
next
  case (Some d)
  obtain agg where "buildDailyAggregate tz (dateOf now) (todayRecords now d) = Inr agg"
    using buildDailyAggregate_ok by blast
  then show ?thesis using Some by (simp add: aggregateDailyStats_unfold)
qed

lemma aggregate_rerun:
  assumes "aggregateDailyStats tz now st = Inr st'" and "dateOf now' = dateOf now"
  shows "aggregateDailyStats tz now' st' = Inr st'"
proof (cases "db st")
  case None
  then show ?thesis using assms by (auto simp: aggregateDailyStats_unfold)
next
  case (Some d)
  show ?thesis
  proof (cases "todayRecords now d = []")
    case True
    then have "st' = st"
      using assms(1) Some by (simp add: aggregateDailyStats_unfold)
    then show ?thesis
      using True Some todayRecords_same_day [OF assms(2)] by (simp add: aggregateDailyStats_unfold)
  next
    case False
    obtain agg where agg: "buildDailyAggregate tz (dateOf now) (todayRecords now d) = Inr agg"
      using buildDailyAggregate_ok by blast
    then have st': "st' = st\<lparr>db := Some (saveDailyAggregate (dateOf now) agg d)\<rparr>"
      using assms(1) Some False by (simp add: aggregateDailyStats_unfold)
    show ?thesis
      using False agg assms(2)
      by (simp add: st' aggregateDailyStats_unfold todayRecords_same_day [OF assms(2)]
            todayRecords_saveDailyAggregate saveDailyAggregate_idem)
  qed
qed

lemma aggregate_empty_day:
  assumes "db st = Some d" and "dateOf now \<noteq> 0" and "recordsOfDay (dateOf now) d = []"
  shows "aggregateDailyStats tz now st = Inr st"
  using assms by (simp add: aggregateDailyStats_unfold records_today)

text \<open>
  C9. The daily aggregation returns, and running it again on the same day over the state it
  left gives that state again: the stored \<open>DailyAggregate\<close> is identical. On a day other than
  day 0 of the epoch, with no record of the day in the log, it leaves the state as it is,
  stored aggregates included.
\<close>

theorem aggregateDailyStats_idempotent_empty_safe:
  "(\<exists>st'. aggregateDailyStats tz now st = Inr st' \<and>
      (\<forall>now'. dateOf now' = dateOf now \<longrightarrow> aggregateDailyStats tz now' st' = Inr st'))
   \<and> (\<forall>d. db st = Some d \<and> dateOf now \<noteq> 0 \<and> recordsOfDay (dateOf now) d = [] \<longrightarrow>
        aggregateDailyStats tz now st = Inr st)"
proof
  obtain st' where st': "aggregateDailyStats tz now st = Inr st'"
    using aggregate_total by blast
  then have "\<forall>now'. dateOf now' = dateOf now \<longrightarrow> aggregateDailyStats tz now' st' = Inr st'"
    using aggregate_rerun by blast
  with st' show "\<exists>st'. aggregateDailyStats tz now st = Inr st' \<and>
      (\<forall>now'. dateOf now' = dateOf now \<longrightarrow> aggregateDailyStats tz now' st' = Inr st')"
    by blast
  show "\<forall>d. db st = Some d \<and> dateOf now \<noteq> 0 \<and> recordsOfDay (dateOf now) d = [] \<longrightarrow>
          aggregateDailyStats tz now st = Inr st"
    using aggregate_empty_day by blast
qed

theorem aggregateDailyStats_idempotent_empty_safe_witness:
  "db (backendOf (dbOf [mkRecord ''a'' ''x'' 172800005 40])) = Some (dbOf [mkRecord ''a'' ''x'' 172800005 40]) \<and>
   dateOf 259200000 \<noteq> 0 \<and>
   recordsOfDay (dateOf 259200000) (dbOf [mkRecord ''a'' ''x'' 172800005 40]) = [] \<and>
   aggregateDailyStats (\<lambda>t. 0) 259200000 (backendOf (dbOf [mkRecord ''a'' ''x'' 172800005 40])) =
     Inr (backendOf (dbOf [mkRecord ''a'' ''x'' 172800005 40])) \<and>
   dateOf 172800200 = dateOf 172800100 \<and>
   (\<exists>st'. aggregateDailyStats (\<lambda>t. 0) 172800100 (backendOf (dbOf [mkRecord ''a'' ''x'' 172800005 40])) = Inr st' \<and>
      aggregateDailyStats (\<lambda>t. 0) 172800200 st' = Inr st')"
proof -
  have a: "dateOf 172800200 = dateOf 172800100" "dateOf 259200000 \<noteq> 0"
    by (simp_all add: dateOf_def)
  have b: "recordsOfDay (dateOf 259200000) (dbOf [mkRecord ''a'' ''x'' 172800005 40]) = []"
    by (simp add: recordsOfDay_def dateOf_def dbOf_def newDatabase_def emptySchema_def mkRecord_def)
  have c: "db (backendOf (dbOf [mkRecord ''a'' ''x'' 172800005 40])) = Some (dbOf [mkRecord ''a'' ''x'' 172800005 40])"
    by (simp add: backendOf_def)
  show ?thesis
    using a b c
      aggregateDailyStats_idempotent_empty_safe [of "\<lambda>t. 0" 259200000
        "backendOf (dbOf [mkRecord ''a'' ''x'' 172800005 40])"]
      aggregateDailyStats_idempotent_empty_safe [of "\<lambda>t. 0" 172800100
        "backendOf (dbOf [mkRecord ''a'' ''x'' 172800005 40])"]
    by blast
qed

subsection \<open>Merging exports\<close>

text \<open>Lookups and keys of a merged aggregate map.\<close>

lemma mergeAggregateStep_other:
  "k \<noteq> fst entry \<Longrightarrow> map_of (mergeAggregateStep tm entry result) k = map_of result k"
  by (cases entry) (auto simp: mergeAggregateStep_def update_conv' split: option.splits)

lemma mergeAggregate_absent_right:
  "k \<notin> fst ` set right \<Longrightarrow> map_of (mergeAggregate tm left right) k = map_of left k"
  unfolding mergeAggregate_def
proof (induction right arbitrary: left)
  case Nil
  then show ?case by simp
next
  case (Cons e right)
  then have "k \<noteq> fst e" "k \<notin> fst ` set right" by auto
  then show ?case using Cons.IH [of "mergeAggregateStep tm e left"]
    by (simp add: mergeAggregateStep_other)
qed

lemma mergeAggregate_lookup:
  assumes "distinct (map fst right)"
  shows "map_of (mergeAggregate tm left right) k =
           (case map_of right k of
              None \<Rightarrow> map_of left k
            | Some r \<Rightarrow>
                (case map_of left k of
                   None \<Rightarrow> Some r
                 | Some l \<Rightarrow>
                     if tm r \<noteq> 0 \<and> tm l \<noteq> 0 then Some (if tm r > tm l then r else l)
                     else Some l))"
  using assms
proof (induction right arbitrary: left)
  case Nil
  then show ?case by (simp add: mergeAggregate_def)
next
  case (Cons e right)
  obtain k' v where e: "e = (k', v)" by (cases e)
  from Cons.prems e have notin: "k' \<notin> fst ` set right" and dist: "distinct (map fst right)"
    by auto
  have unfold: "mergeAggregate tm left (e # right) = mergeAggregate tm (mergeAggregateStep tm e left) right"
    by (simp add: mergeAggregate_def)
  show ?case
  proof (cases "k = k'")
    case True
    have "map_of (mergeAggregate tm left (e # right)) k = map_of (mergeAggregateStep tm e left) k"
      using unfold mergeAggregate_absent_right [OF notin] True by simp
    then show ?thesis
      using True e by (auto simp: mergeAggregateStep_def update_conv' split: option.splits)
  next
    case False
    then have step: "map_of (mergeAggregateStep tm e left) k = map_of left k"
      using e by (simp add: mergeAggregateStep_other)
    from False e have mr: "map_of (e # right) k = map_of right k" by simp
    show ?thesis
      unfolding unfold Cons.IH [OF dist] step mr ..
  qed
qed

lemma mergeAggregateStep_keys:
  "fst ` set (mergeAggregateStep tm entry result) = insert (fst entry) (fst ` set result)"
proof (cases entry)
  case (Pair k v)
  show ?thesis
  proof (cases "map_of result k")
    case None
    then show ?thesis using Pair by (simp add: mergeAggregateStep_def dom_update)
  next
    case (Some cur)
    then have "k \<in> fst ` set result" using map_of_eq_None_iff [of result k] by auto
    then show ?thesis using Pair Some by (auto simp: mergeAggregateStep_def dom_update)
  qed
qed

lemma mergeAggregate_keys:
  "fst ` set (mergeAggregate tm left right) = fst ` set left \<union> fst ` set right"
  unfolding mergeAggregate_def
  by (induction right arbitrary: left) (auto simp: mergeAggregateStep_keys)

text \<open>Invariants of the deduplication loop.\<close>

lemma dedupStep_keys: "fst ` set (dedupStep r m) = insert (recordKey r) (fst ` set m)"
proof (cases "map_of m (recordKey r)")
  case None
  then show ?thesis by (simp add: dedupStep_def dom_update)
next
  case (Some x)
  then have "recordKey r \<in> fst ` set m" using map_of_eq_None_iff [of m "recordKey r"] by auto
  then show ?thesis using Some by (auto simp: dedupStep_def)
qed

lemma dedupStep_distinct: "distinct (map fst m) \<Longrightarrow> distinct (map fst (dedupStep r m))"
  by (simp add: dedupStep_def Let_def distinct_update)

lemma update_new: "map_of m k = None \<Longrightarrow> AList.update k v m = m @ [(k, v)]"
  by (induction m) (auto split: if_splits)

lemma dedupStep_keyed:
  "\<forall>e\<in>set m. fst e = recordKey (snd e) \<Longrightarrow> \<forall>e\<in>set (dedupStep r m). fst e = recordKey (snd e)"
  by (auto simp: dedupStep_def Let_def update_new split: if_splits)

lemma dedupStep_from:
  "snd ` set m \<subseteq> S \<Longrightarrow> r \<in> S \<Longrightarrow> snd ` set (dedupStep r m) \<subseteq> S"
  by (auto simp: dedupStep_def Let_def update_new split: if_splits)

lemma dedup_fold:
  assumes "distinct (map fst m)" and "\<forall>e\<in>set m. fst e = recordKey (snd e)"
  shows "distinct (map fst (fold dedupStep rs m))
       \<and> (\<forall>e\<in>set (fold dedupStep rs m). fst e = recordKey (snd e))
       \<and> fst ` set (fold dedupStep rs m) = fst ` set m \<union> recordKey ` set rs
       \<and> snd ` set (fold dedupStep rs m) \<subseteq> snd ` set m \<union> set rs"
  using assms
proof (induction rs arbitrary: m)
  case Nil
  then show ?case by simp
next
  case (Cons r rs)
  have 1: "distinct (map fst (dedupStep r m))" using Cons.prems dedupStep_distinct by blast
  have 2: "\<forall>e\<in>set (dedupStep r m). fst e = recordKey (snd e)"
    using Cons.prems dedupStep_keyed by blast
  have 3: "snd ` set (dedupStep r m) \<subseteq> snd ` set m \<union> set (r # rs)"
    by (rule dedupStep_from) auto
  note ih = Cons.IH [OF 1 2]
  from ih have a: "distinct (map fst (fold dedupStep rs (dedupStep r m)))" by blast
  from ih have b: "\<forall>e\<in>set (fold dedupStep rs (dedupStep r m)). fst e = recordKey (snd e)" by blast
  from ih have "fst ` set (fold dedupStep rs (dedupStep r m)) =
      fst ` set (dedupStep r m) \<union> recordKey ` set rs" by blast
  also have "\<dots> = fst ` set m \<union> recordKey ` set (r # rs)"
    unfolding dedupStep_keys by auto
  finally have c: "fst ` set (fold dedupStep rs (dedupStep r m)) = fst ` set m \<union> recordKey ` set (r # rs)" .
  from ih have "snd ` set (fold dedupStep rs (dedupStep r m)) \<subseteq> snd ` set (dedupStep r m) \<union> set rs"
    by blast
  also have "\<dots> \<subseteq> snd ` set m \<union> set (r # rs)"
    using 3 by auto
  finally have d: "snd ` set (fold dedupStep rs (dedupStep r m)) \<subseteq> snd ` set m \<union> set (r # rs)" .
  show ?case unfolding fold_simps by (intro conjI a b c d)
qed

lemma dedup_records:
  "distinct (map recordKey (map snd (fold dedupStep rs [])))
   \<and> recordKey ` set (map snd (fold dedupStep rs [])) = recordKey ` set rs
   \<and> set (map snd (fold dedupStep rs [])) \<subseteq> set rs"
proof -
  from dedup_fold [of "[]" rs] have
    d: "distinct (map fst (fold dedupStep rs []))" and
    k: "\<forall>e\<in>set (fold dedupStep rs []). fst e = recordKey (snd e)" and
    s: "fst ` set (fold dedupStep rs []) = recordKey ` set rs" and
    f: "snd ` set (fold dedupStep rs []) \<subseteq> set rs"
    by auto
  from k have eq: "map recordKey (map snd (fold dedupStep rs [])) = map fst (fold dedupStep rs [])"
    by (simp add: comp_def)
  have A: "distinct (map recordKey (map snd (fold dedupStep rs [])))"
    unfolding eq by (rule d)
  have "recordKey ` set (map snd (fold dedupStep rs [])) = set (map recordKey (map snd (fold dedupStep rs [])))"
    by (simp only: set_map)
  also have "\<dots> = fst ` set (fold dedupStep rs [])" by (simp only: eq set_map)
  finally have B: "recordKey ` set (map snd (fold dedupStep rs [])) = recordKey ` set rs"
    by (simp only: s)
  have C: "set (map snd (fold dedupStep rs [])) \<subseteq> set rs"
    using f by (simp only: set_map)
  show ?thesis by (intro conjI A B C)
qed

text \<open>The record key determines the identity tuple when the song id has no separator.\<close>

lemma digits_all: "\<forall>m\<in>set [0..<10]. (of_char (digitChar m) :: nat) = 48 + m"
  by (simp add: upt_rec digitChar_def)

lemma digitChar_code: "n < 10 \<Longrightarrow> (of_char (digitChar n) :: nat) = 48 + n"
  using digits_all by (simp del: upt_conv_Cons)

lemma digitChar_plain: "n < 10 \<Longrightarrow> digitChar n \<noteq> CHR ''|'' \<and> digitChar n \<noteq> CHR ''-''"
proof -
  assume "n < 10"
  then have c: "(of_char (digitChar n) :: nat) = 48 + n" by (rule digitChar_code)
  have "digitChar n \<noteq> CHR ''|''"
  proof
    assume "digitChar n = CHR ''|''"
    with c \<open>n < 10\<close> show False by simp
  qed
  moreover have "digitChar n \<noteq> CHR ''-''"
  proof
    assume "digitChar n = CHR ''-''"
    with c \<open>n < 10\<close> show False by simp
  qed
  ultimately show ?thesis by simp
qed

lemma digitChar_inj:
  assumes "n < 10" and "m < 10" and eq: "digitChar n = digitChar m"
  shows "n = m"
proof -
  have "48 + n = (of_char (digitChar n) :: nat)" using assms(1) by (simp only: digitChar_code)
  also have "\<dots> = of_char (digitChar m)" by (simp only: eq)
  also have "\<dots> = 48 + m" using assms(2) by (simp only: digitChar_code)
  finally show ?thesis by (simp only: add_left_cancel)
qed

lemma showNat_plain: "CHR ''|'' \<notin> set (showNat n) \<and> CHR ''-'' \<notin> set (showNat n)"
proof (induction n rule: showNat.induct)
  case (1 n)
  show ?case
  proof (cases "n < 10")
    case True
    then show ?thesis using digitChar_plain [of n] by (auto simp: showNat.simps [of n])
  next
    case False
    then show ?thesis
      using 1 digitChar_plain [of "n mod 10"] by (auto simp: showNat.simps [of n])
  qed
qed

lemma showNat_nonempty: "showNat n \<noteq> []"
  by (simp add: showNat.simps [of n])

lemma showNat_small: "n < 10 \<Longrightarrow> showNat n = [digitChar n]"
  by (simp add: showNat.simps [of n])

lemma showNat_large: "\<not> n < 10 \<Longrightarrow> showNat n = showNat (n div 10) @ [digitChar (n mod 10)]"
  by (simp add: showNat.simps [of n])

lemma showNat_inj: "showNat n = showNat m \<Longrightarrow> n = m"
proof (induction n arbitrary: m rule: showNat.induct)
  case (1 n)
  note eq = "1.prems"
  show ?case
  proof (cases "n < 10")
    case n: True
    show ?thesis
    proof (cases "m < 10")
      case True
      from eq have "digitChar n = digitChar m"
        unfolding showNat_small [OF n] showNat_small [OF True] by simp
      with n True show ?thesis by (rule digitChar_inj)
    next
      case False
      from eq have "showNat (m div 10) = []"
        unfolding showNat_small [OF n] showNat_large [OF False] by simp
      then show ?thesis using showNat_nonempty [of "m div 10"] by simp
    qed
  next
    case n: False
    show ?thesis
    proof (cases "m < 10")
      case True
      from eq have "showNat (n div 10) = []"
        unfolding showNat_small [OF True] showNat_large [OF n] by simp
      then show ?thesis using showNat_nonempty [of "n div 10"] by simp
    next
      case False
      from eq have e: "showNat (n div 10) = showNat (m div 10)"
        and dg: "digitChar (n mod 10) = digitChar (m mod 10)"
        unfolding showNat_large [OF n] showNat_large [OF False] by simp_all
      from "1.IH" [OF n e] have q: "n div 10 = m div 10" .
      have "n mod 10 < 10" "m mod 10 < 10" by simp_all
      then have r: "n mod 10 = m mod 10" using dg by (rule digitChar_inj)
      have "n = 10 * (n div 10) + n mod 10" by simp
      also have "\<dots> = 10 * (m div 10) + m mod 10" by (simp only: q r)
      also have "\<dots> = m" by simp
      finally show ?thesis .
    qed
  qed
qed

lemma showInt_plain: "CHR ''|'' \<notin> set (showInt i)"
  using showNat_plain by (simp add: showInt_def)

lemma showInt_inj:
  assumes eq: "showInt i = showInt j"
  shows "i = j"
proof -
  have hd: "hd (showNat n) \<noteq> CHR ''-''" for n
    using showNat_plain [of n] hd_in_set [OF showNat_nonempty [of n]] by auto
  show ?thesis
  proof (cases "i < 0")
    case i: True
    show ?thesis
    proof (cases "j < 0")
      case True
      with i eq have "showNat (nat (- i)) = showNat (nat (- j))" by (simp add: showInt_def)
      then have "nat (- i) = nat (- j)" by (rule showNat_inj)
      with i True show ?thesis by simp
    next
      case False
      with i eq have "showNat (nat j) = CHR ''-'' # showNat (nat (- i))" by (simp add: showInt_def)
      then have "hd (showNat (nat j)) = CHR ''-''" by simp
      then show ?thesis using hd [of "nat j"] by simp
    qed
  next
    case i: False
    show ?thesis
    proof (cases "j < 0")
      case True
      with i eq have "showNat (nat i) = CHR ''-'' # showNat (nat (- j))" by (simp add: showInt_def)
      then have "hd (showNat (nat i)) = CHR ''-''" by simp
      then show ?thesis using hd [of "nat i"] by simp
    next
      case False
      with i eq have "showNat (nat i) = showNat (nat j)" by (simp add: showInt_def)
      then have "nat i = nat j" by (rule showNat_inj)
      with i False show ?thesis by simp
    qed
  qed
qed

lemma showNat_digits: "c \<in> set (showNat n) \<Longrightarrow> 48 \<le> (of_char c :: nat) \<and> (of_char c :: nat) \<le> 57"
proof (induction n rule: showNat.induct)
  case (1 n)
  show ?case
  proof (cases "n < 10")
    case True
    with "1.prems" have "c = digitChar n" by (simp add: showNat_small)
    with True show ?thesis by (simp add: digitChar_code)
  next
    case False
    with "1.prems" have "c \<in> set (showNat (n div 10)) \<or> c = digitChar (n mod 10)"
      by (auto simp: showNat_large)
    then show ?thesis
    proof
      assume "c \<in> set (showNat (n div 10))"
      with False show ?thesis by (rule "1.IH")
    next
      assume "c = digitChar (n mod 10)"
      then show ?thesis by (simp add: digitChar_code)
    qed
  qed
qed

lemma showInt_chars:
  assumes "c \<in> set (showInt i)"
  shows "c = CHR ''-'' \<or> (48 \<le> (of_char c :: nat) \<and> (of_char c :: nat) \<le> 57)"
proof (cases "i < 0")
  case True
  with assms have "c = CHR ''-'' \<or> c \<in> set (showNat (nat (- i)))" by (simp add: showInt_def)
  then show ?thesis using showNat_digits by blast
next
  case False
  with assms have "c \<in> set (showNat (nat i))" by (simp add: showInt_def)
  then show ?thesis using showNat_digits by blast
qed

lemma showInt_no_letter:
  assumes "c \<in> set s" and "c \<noteq> CHR ''-''" and "(of_char c :: nat) > 57"
  shows "showInt i \<noteq> s"
proof
  assume "showInt i = s"
  with assms(1) have "c \<in> set (showInt i)" by simp
  from showInt_chars [OF this] assms(2,3) show False by simp
qed

lemma showInt_not_word:
  "showInt i \<noteq> ''NaN''" "showInt i \<noteq> ''Infinity''" "showInt i \<noteq> ''-Infinity''" "showInt i \<noteq> ''null''"
proof -
  show "showInt i \<noteq> ''NaN''" by (rule showInt_no_letter [of "CHR ''N''"]) simp_all
  show "showInt i \<noteq> ''Infinity''" by (rule showInt_no_letter [of "CHR ''I''"]) simp_all
  show "showInt i \<noteq> ''-Infinity''" by (rule showInt_no_letter [of "CHR ''I''"]) simp_all
  show "showInt i \<noteq> ''null''" by (rule showInt_no_letter [of "CHR ''n''"]) simp_all
qed

lemma showNumber_plain: "CHR ''|'' \<notin> set (showNumber x)"
  by (cases x) (simp_all add: showNumber_def showInt_plain)

lemma showNumber_inj:
  assumes eq: "showNumber x = showNumber y"
  shows "x = y"
proof (cases x)
  case (Num n)
  show ?thesis
  proof (cases y)
    case (Num m)
    with \<open>x = Num n\<close> eq have "showInt n = showInt m" by (simp add: showNumber_def)
    then have "n = m" by (rule showInt_inj)
    with Num \<open>x = Num n\<close> show ?thesis by simp
  qed (use eq \<open>x = Num n\<close> showInt_not_word [of n] in \<open>simp_all add: showNumber_def\<close>)
next
  case NaN
  then show ?thesis using eq showInt_not_word(1) [symmetric] by (cases y) (simp_all add: showNumber_def)
next
  case PosInf
  then show ?thesis using eq showInt_not_word(2) [symmetric] by (cases y) (simp_all add: showNumber_def)
next
  case NegInf
  then show ?thesis using eq showInt_not_word(3) [symmetric] by (cases y) (simp_all add: showNumber_def)
next
  case Null
  then show ?thesis using eq showInt_not_word(4) [symmetric] by (cases y) (simp_all add: showNumber_def)
qed

lemma sep_split_left:
  assumes "c \<notin> set a" and "c \<notin> set a'" and "a @ c # x = a' @ c # x'"
  shows "a = a' \<and> x = x'"
  using assms
proof (induction a arbitrary: a')
  case Nil
  then show ?case by (cases a') auto
next
  case (Cons h t)
  then show ?case by (cases a') auto
qed

lemma sep_split_right:
  assumes "c \<notin> set x" and "c \<notin> set x'" and eq: "a @ c # x = a' @ c # x'"
  shows "a = a' \<and> x = x'"
proof -
  from eq have "rev (a @ c # x) = rev (a' @ c # x')" by (rule arg_cong)
  then have r: "rev x @ c # rev a = rev x' @ c # rev a'" by simp
  have "c \<notin> set (rev x)" "c \<notin> set (rev x')" using assms(1,2) by simp_all
  from sep_split_left [OF this r] show ?thesis by simp
qed

lemma key_tail_inj:
  assumes T: "c \<notin> set T" "c \<notin> set T'" and D: "c \<notin> set D" "c \<notin> set D'"
    and U: "c \<notin> set U" "c \<notin> set U'"
    and eq: "a @ c # T @ c # D @ c # U = a' @ c # T' @ c # D' @ c # U'"
  shows "a = a' \<and> T = T' \<and> D = D' \<and> U = U'"
proof -
  from eq have "(a @ c # T @ c # D) @ c # U = (a' @ c # T' @ c # D') @ c # U'" by simp
  from sep_split_right [OF U this] have u: "U = U'" and e2: "a @ c # T @ c # D = a' @ c # T' @ c # D'"
    by simp_all
  from e2 have "(a @ c # T) @ c # D = (a' @ c # T') @ c # D'" by simp
  from sep_split_right [OF D this] have d: "D = D'" and e3: "a @ c # T = a' @ c # T'"
    by simp_all
  from sep_split_right [OF T e3] have "a = a'" "T = T'" by simp_all
  with u d show ?thesis by simp
qed

lemma recordKey_unfold:
  "recordKey r = songId r @ CHR ''|'' # (artistId r @ CHR ''|'' # showInt (timestamp r) @ CHR ''|'' #
        showInt (durationListened r) @ CHR ''|'' # showNumber (totalDuration r))"
  by (simp add: recordKey_def)

lemma recordKey_identity:
  assumes "CHR ''|'' \<notin> set (songId r)" and "CHR ''|'' \<notin> set (songId r')"
  shows "recordKey r = recordKey r' \<longleftrightarrow> recordIdentity r = recordIdentity r'"
proof
  assume "recordKey r = recordKey r'"
  then have eq: "songId r @ CHR ''|'' # (artistId r @ CHR ''|'' # showInt (timestamp r) @ CHR ''|'' #
        showInt (durationListened r) @ CHR ''|'' # showNumber (totalDuration r)) =
      songId r' @ CHR ''|'' # (artistId r' @ CHR ''|'' # showInt (timestamp r') @ CHR ''|'' #
        showInt (durationListened r') @ CHR ''|'' # showNumber (totalDuration r'))"
    by (simp only: recordKey_unfold)
  from sep_split_left [OF assms eq] have s: "songId r = songId r'"
    and rest: "artistId r @ CHR ''|'' # showInt (timestamp r) @ CHR ''|'' #
        showInt (durationListened r) @ CHR ''|'' # showNumber (totalDuration r) =
      artistId r' @ CHR ''|'' # showInt (timestamp r') @ CHR ''|'' #
        showInt (durationListened r') @ CHR ''|'' # showNumber (totalDuration r')"
    by (rule conjunct1, rule conjunct2)
  from key_tail_inj [OF showInt_plain showInt_plain showInt_plain showInt_plain showNumber_plain
      showNumber_plain rest]
  have a: "artistId r = artistId r'" and t: "showInt (timestamp r) = showInt (timestamp r')"
    and d: "showInt (durationListened r) = showInt (durationListened r')"
    and u: "showNumber (totalDuration r) = showNumber (totalDuration r')"
    by blast+
  from t have t': "timestamp r = timestamp r'" by (rule showInt_inj)
  from d have d': "durationListened r = durationListened r'" by (rule showInt_inj)
  from u have u': "totalDuration r = totalDuration r'" by (rule showNumber_inj)
  show "recordIdentity r = recordIdentity r'"
    unfolding recordIdentity_def by (simp only: s a t' d' u')
next
  assume "recordIdentity r = recordIdentity r'"
  then show "recordKey r = recordKey r'"
    by (simp add: recordIdentity_def recordKey_def)
qed

subsection \<open>Claims on merging\<close>

text \<open>
  C2 (amended). For an aggregate map \<open>right\<close> with one entry per key: a key present in both
  maps whose two aggregates both report a nonzero \<open>totalMinutes\<close> keeps the aggregate with
  the larger \<open>totalMinutes\<close>, the left one on a tie; a key present in only one map keeps its
  aggregate.
\<close>

theorem mergeAggregate_keeps_larger:
  assumes "distinct (map fst right)"
  shows "(\<forall>l r. map_of left k = Some l \<and> map_of right k = Some r \<and> tm l \<noteq> 0 \<and> tm r \<noteq> 0 \<longrightarrow>
            map_of (mergeAggregate tm left right) k = Some (if tm r > tm l then r else l))
       \<and> (map_of left k = None \<longrightarrow> map_of (mergeAggregate tm left right) k = map_of right k)
       \<and> (map_of right k = None \<longrightarrow> map_of (mergeAggregate tm left right) k = map_of left k)"
  using mergeAggregate_lookup [OF assms, of tm left k]
  by (auto split: option.splits)

theorem mergeAggregate_keeps_larger_witness:
  "distinct (map fst [(1::int, mkDaily 1 20 5), (2, mkDaily 2 5 1)]) \<and>
   map_of (mergeAggregate DailyAggregate.totalMinutes [(1::int, mkDaily 1 10 3)]
      [(1, mkDaily 1 20 5), (2, mkDaily 2 5 1)]) 1 = Some (mkDaily 1 20 5) \<and>
   map_of (mergeAggregate DailyAggregate.totalMinutes [(1::int, mkDaily 1 10 3)]
      [(1, mkDaily 1 20 5), (2, mkDaily 2 5 1)]) 2 = Some (mkDaily 2 5 1)"
  using mergeAggregate_keeps_larger [of "[(1::int, mkDaily 1 20 5), (2, mkDaily 2 5 1)]"
      "[(1, mkDaily 1 10 3)]" 1 DailyAggregate.totalMinutes]
    mergeAggregate_keeps_larger [of "[(1::int, mkDaily 1 20 5), (2, mkDaily 2 5 1)]"
      "[(1, mkDaily 1 10 3)]" 2 DailyAggregate.totalMinutes]
  by (simp add: mkDaily_def)

text \<open>
  C2 as stated fails: a left aggregate reporting 0 minutes is kept although the right one
  reports 5.
\<close>

theorem mergeAggregate_zero_minutes_counterexample:
  "map_of (mergeAggregate DailyAggregate.totalMinutes [(1::int, mkDaily 1 0 3)] [(1, mkDaily 1 5 4)]) 1 =
     Some (mkDaily 1 0 3)
   \<and> DailyAggregate.totalMinutes (mkDaily 1 5 4) > DailyAggregate.totalMinutes (mkDaily 1 0 3)"
  by (simp add: mergeAggregate_def mergeAggregateStep_def mkDaily_def)

lemma mergedRecords_mergeExports:
  "mergedRecords (mergeExports now A B) =
     map snd (fold dedupStep (orElse (docPlayRecords (snd A)) [] @ orElse (docPlayRecords (snd B)) []) [])"
  by (simp add: mergedRecords_def mergeExports_def Let_def orElse_def)

lemma dailyKeys_mergeExports:
  "dailyKeys (mergeExports now A B) =
     fst ` set (orElse (docDailyAggregates (snd A)) []) \<union> fst ` set (orElse (docDailyAggregates (snd B)) [])"
  by (simp add: dailyKeys_def mergeExports_def Let_def mergeAggregate_keys orElse_def)

lemma monthlyKeys_mergeExports:
  "monthlyKeys (mergeExports now A B) =
     fst ` set (orElse (docMonthlyAggregates (snd A)) []) \<union> fst ` set (orElse (docMonthlyAggregates (snd B)) [])"
  by (simp add: monthlyKeys_def mergeExports_def Let_def mergeAggregate_keys orElse_def)

lemma merged_identities:
  assumes plain: "\<forall>r\<in>set rs. CHR ''|'' \<notin> set (songId r)"
  shows "recordIdentity ` set (map snd (fold dedupStep rs [])) = recordIdentity ` set rs
       \<and> distinct (map recordIdentity (map snd (fold dedupStep rs [])))"
proof -
  define M where "M = map snd (fold dedupStep rs [])"
  from dedup_records [of rs] have dk: "distinct (map recordKey M)"
    and ks: "recordKey ` set M = recordKey ` set rs" and sub: "set M \<subseteq> set rs"
    unfolding M_def by blast+
  have iff: "recordKey x = recordKey y \<longleftrightarrow> recordIdentity x = recordIdentity y"
    if "x \<in> set rs" "y \<in> set rs" for x y
    using that plain recordKey_identity by blast
  have "recordIdentity ` set M = recordIdentity ` set rs"
  proof
    show "recordIdentity ` set M \<subseteq> recordIdentity ` set rs" using sub by blast
    show "recordIdentity ` set rs \<subseteq> recordIdentity ` set M"
    proof
      fix i assume "i \<in> recordIdentity ` set rs"
      then obtain r where r: "r \<in> set rs" "i = recordIdentity r" by blast
      then have "recordKey r \<in> recordKey ` set M" using ks by blast
      then obtain m where m: "m \<in> set M" "recordKey m = recordKey r" by force
      with sub r iff [of m r] have "recordIdentity m = recordIdentity r" by blast
      with r have "i = recordIdentity m" by simp
      then show "i \<in> recordIdentity ` set M" using m(1) by (rule image_eqI)
    qed
  qed
  moreover have "distinct (map recordIdentity M)"
  proof -
    from dk have dM: "distinct M" and inj: "inj_on recordKey (set M)"
      by (simp_all add: distinct_map)
    have "inj_on recordIdentity (set M)"
    proof (rule inj_onI)
      fix x y assume xy: "x \<in> set M" "y \<in> set M" "recordIdentity x = recordIdentity y"
      with sub iff [of x y] have "recordKey x = recordKey y" by blast
      with inj xy show "x = y" by (simp add: inj_on_def)
    qed
    with dM show ?thesis by (simp add: distinct_map)
  qed
  ultimately show ?thesis unfolding M_def by blast
qed

text \<open>
  Apart from collisions of the key: for two export bundles none of whose song ids contains
  the separator \<open>|\<close>, \<open>mergeExports\<close> in either order gives the same set of record
  identities, namely those of the records of both sides, each identity exactly once, and
  the same key sets of the daily and monthly aggregate maps, namely the unions of the key
  sets of both sides.
\<close>

lemma mergeExports_order_independent:
  assumes "\<forall>r\<in>set (orElse (docPlayRecords (snd A)) []) \<union> set (orElse (docPlayRecords (snd B)) []).
             CHR ''|'' \<notin> set (songId r)"
  shows "set (map recordIdentity (mergedRecords (mergeExports t1 A B))) =
           set (map recordIdentity (mergedRecords (mergeExports t2 B A)))
       \<and> set (map recordIdentity (mergedRecords (mergeExports t1 A B))) =
           recordIdentity ` (set (orElse (docPlayRecords (snd A)) []) \<union> set (orElse (docPlayRecords (snd B)) []))
       \<and> distinct (map recordIdentity (mergedRecords (mergeExports t1 A B)))
       \<and> dailyKeys (mergeExports t1 A B) = dailyKeys (mergeExports t2 B A)
       \<and> dailyKeys (mergeExports t1 A B) = dailyKeys (snd A) \<union> dailyKeys (snd B)
       \<and> monthlyKeys (mergeExports t1 A B) = monthlyKeys (mergeExports t2 B A)
       \<and> monthlyKeys (mergeExports t1 A B) = monthlyKeys (snd A) \<union> monthlyKeys (snd B)"
proof -
  define ra where "ra = orElse (docPlayRecords (snd A)) []"
  define rb where "rb = orElse (docPlayRecords (snd B)) []"
  have pab: "\<forall>r\<in>set (ra @ rb). CHR ''|'' \<notin> set (songId r)"
    and pba: "\<forall>r\<in>set (rb @ ra). CHR ''|'' \<notin> set (songId r)"
    using assms unfolding ra_def rb_def by auto
  from merged_identities [OF pab] have
    1: "recordIdentity ` set (mergedRecords (mergeExports t1 A B)) = recordIdentity ` set (ra @ rb)"
    and 2: "distinct (map recordIdentity (mergedRecords (mergeExports t1 A B)))"
    unfolding mergedRecords_mergeExports ra_def rb_def by blast+
  from merged_identities [OF pba] have
    3: "recordIdentity ` set (mergedRecords (mergeExports t2 B A)) = recordIdentity ` set (rb @ ra)"
    unfolding mergedRecords_mergeExports ra_def rb_def by blast
  have 4: "recordIdentity ` set (ra @ rb) = recordIdentity ` set (rb @ ra)" by auto
  have 5: "dailyKeys (mergeExports t1 A B) = dailyKeys (mergeExports t2 B A)"
    unfolding dailyKeys_mergeExports by (rule Un_commute)
  have 6: "monthlyKeys (mergeExports t1 A B) = monthlyKeys (mergeExports t2 B A)"
    unfolding monthlyKeys_mergeExports by (rule Un_commute)
  from 1 have 7: "set (map recordIdentity (mergedRecords (mergeExports t1 A B))) =
      recordIdentity ` (set ra \<union> set rb)" by simp
  from 1 3 4 have 8: "set (map recordIdentity (mergedRecords (mergeExports t1 A B))) =
      set (map recordIdentity (mergedRecords (mergeExports t2 B A)))" by simp
  have 9: "dailyKeys (mergeExports t1 A B) = dailyKeys (snd A) \<union> dailyKeys (snd B)"
    unfolding dailyKeys_mergeExports by (simp add: dailyKeys_def)
  have 10: "monthlyKeys (mergeExports t1 A B) = monthlyKeys (snd A) \<union> monthlyKeys (snd B)"
    unfolding monthlyKeys_mergeExports by (simp add: monthlyKeys_def)
  show ?thesis
    using 2 5 6 7 8 9 10 unfolding ra_def rb_def by blast
qed

lemma mergeExports_order_independent_example:
  "set (map recordIdentity (mergedRecords (mergeExports 7
       (5, docOf [mkRecord ''s1'' ''a'' 1 40, mkRecord ''s2'' ''a'' 2 40])
       (6, docOf [mkRecord ''s1'' ''a'' 1 40, mkRecord ''s3'' ''b'' 3 40])))) =
     {(''s1'', ''a'', 1, 40, Num 200), (''s2'', ''a'', 2, 40, Num 200), (''s3'', ''b'', 3, 40, Num 200)} \<and>
   distinct (map recordIdentity (mergedRecords (mergeExports 7
       (5, docOf [mkRecord ''s1'' ''a'' 1 40, mkRecord ''s2'' ''a'' 2 40])
       (6, docOf [mkRecord ''s1'' ''a'' 1 40, mkRecord ''s3'' ''b'' 3 40]))))"
proof -
  have h: "\<forall>r\<in>set (orElse (docPlayRecords (snd (5::int, docOf [mkRecord ''s1'' ''a'' 1 40, mkRecord ''s2'' ''a'' 2 40]))) []) \<union>
        set (orElse (docPlayRecords (snd (6::int, docOf [mkRecord ''s1'' ''a'' 1 40, mkRecord ''s3'' ''b'' 3 40]))) []).
      CHR ''|'' \<notin> set (songId r)"
    by (simp add: orElse_def docOf_def emptyDoc_def mkRecord_def)
  have e: "recordIdentity ` (set (orElse (docPlayRecords (snd (5::int, docOf [mkRecord ''s1'' ''a'' 1 40, mkRecord ''s2'' ''a'' 2 40]))) []) \<union>
        set (orElse (docPlayRecords (snd (6::int, docOf [mkRecord ''s1'' ''a'' 1 40, mkRecord ''s3'' ''b'' 3 40]))) [])) =
      {(''s1'', ''a'', 1, 40, Num 200), (''s2'', ''a'', 2, 40, Num 200), (''s3'', ''b'', 3, 40, Num 200)}"
    by (auto simp: orElse_def docOf_def emptyDoc_def mkRecord_def recordIdentity_def)
  note t = mergeExports_order_independent [OF h, of 7 7]
  from t have a: "set (map recordIdentity (mergedRecords (mergeExports 7
       (5, docOf [mkRecord ''s1'' ''a'' 1 40, mkRecord ''s2'' ''a'' 2 40])
       (6, docOf [mkRecord ''s1'' ''a'' 1 40, mkRecord ''s3'' ''b'' 3 40])))) =
     {(''s1'', ''a'', 1, 40, Num 200), (''s2'', ''a'', 2, 40, Num 200), (''s3'', ''b'', 3, 40, Num 200)}"
    unfolding e by (rule conjunct1 [OF conjunct2])
  from t have b: "distinct (map recordIdentity (mergedRecords (mergeExports 7
       (5, docOf [mkRecord ''s1'' ''a'' 1 40, mkRecord ''s2'' ''a'' 2 40])
       (6, docOf [mkRecord ''s1'' ''a'' 1 40, mkRecord ''s3'' ''b'' 3 40]))))"
    by (rule conjunct1 [OF conjunct2 [OF conjunct2]])
  show ?thesis by (rule conjI [OF a b])
qed

text \<open>
  C6. Merging two bundles is to give the same record identities in either order, each
  identity exactly once. At this input the code does not: the two records have different
  identity tuples and the same key in the deduplication map, which joins the five fields
  with \<open>|\<close>, so each order keeps the record it meets first and drops the other, and the
  merged records of the two orders hold different identities.
\<close>

theorem mergeExports_separator_collision:
  "recordIdentity (mkRecord ''a'' ''b|c'' 1 30) \<noteq> recordIdentity (mkRecord ''a|b'' ''c'' 1 30)
   \<and> mergedRecords (mergeExports 0 (0, docOf [mkRecord ''a|b'' ''c'' 1 30])
        (0, docOf [mkRecord ''a'' ''b|c'' 1 30])) = [mkRecord ''a|b'' ''c'' 1 30]
   \<and> mergedRecords (mergeExports 0 (0, docOf [mkRecord ''a'' ''b|c'' 1 30])
        (0, docOf [mkRecord ''a|b'' ''c'' 1 30])) = [mkRecord ''a'' ''b|c'' 1 30]
   \<and> set (map recordIdentity (mergedRecords (mergeExports 0 (0, docOf [mkRecord ''a|b'' ''c'' 1 30])
        (0, docOf [mkRecord ''a'' ''b|c'' 1 30])))) \<noteq>
     set (map recordIdentity (mergedRecords (mergeExports 0 (0, docOf [mkRecord ''a'' ''b|c'' 1 30])
        (0, docOf [mkRecord ''a|b'' ''c'' 1 30]))))"
proof -
  have k: "recordKey (mkRecord ''a'' ''b|c'' 1 30) = recordKey (mkRecord ''a|b'' ''c'' 1 30)"
    by (simp add: recordKey_def mkRecord_def)
  have i: "recordIdentity (mkRecord ''a'' ''b|c'' 1 30) \<noteq> recordIdentity (mkRecord ''a|b'' ''c'' 1 30)"
    by (simp add: recordIdentity_def mkRecord_def)
  have ab: "mergedRecords (mergeExports 0 (0, docOf [mkRecord ''a|b'' ''c'' 1 30])
        (0, docOf [mkRecord ''a'' ''b|c'' 1 30])) = [mkRecord ''a|b'' ''c'' 1 30]"
    by (simp add: mergedRecords_mergeExports docOf_def emptyDoc_def orElse_def dedupStep_def k)
  have ba: "mergedRecords (mergeExports 0 (0, docOf [mkRecord ''a'' ''b|c'' 1 30])
        (0, docOf [mkRecord ''a|b'' ''c'' 1 30])) = [mkRecord ''a'' ''b|c'' 1 30]"
    by (simp add: mergedRecords_mergeExports docOf_def emptyDoc_def orElse_def dedupStep_def k)
  have ne: "set (map recordIdentity [mkRecord ''a|b'' ''c'' 1 30]) \<noteq>
      set (map recordIdentity [mkRecord ''a'' ''b|c'' 1 30])"
    using i by simp
  show ?thesis
    unfolding ab ba using i ne by (intro conjI) simp_all
qed

subsection \<open>Export, import and reconciliation\<close>

lemma parseExport_local:
  "parseExport (exportData now d) =
     (now, \<lparr>version = Some 1, exportDate = Some now,
        docPlayRecords = Some (map jsonRecord (playRecords (data d))),
        docDailyAggregates = Some (dailyAggregates (data d)),
        docMonthlyAggregates = Some (monthlyAggregates (data d)),
        docStreak = streak (data d)\<rparr>)"
  by (simp add: parseExport_def exportData_def stringify_def truthyNum_def)

lemma uploadDriveFile_ok:
  "uploadReply env = Ok u \<Longrightarrow>
   uploadDriveFile tok env fid content st = (Inr (), send (Upload tok fid content) st)"
  by (simp add: uploadDriveFile_def Let_def)

lemma jsonRecord_fixed:
  assumes "totalDuration r \<noteq> NaN \<and> totalDuration r \<noteq> PosInf \<and> totalDuration r \<noteq> NegInf"
  shows "jsonRecord r = r"
  using assms by (cases "totalDuration r") (simp_all add: jsonRecord_def jsonNumber_def)

lemma jsonRecords_fixed:
  assumes "\<forall>r\<in>set rs. totalDuration r \<noteq> NaN \<and> totalDuration r \<noteq> PosInf \<and> totalDuration r \<noteq> NegInf"
  shows "map jsonRecord rs = rs"
  using assms by (induction rs) (simp_all add: jsonRecord_fixed)

lemma importData_exportData:
  "importData ok (exportData now d) target =
     Inr (save ok (markDirty (target\<lparr>data :=
       \<lparr>playRecords = map jsonRecord (playRecords (data d)),
        dailyAggregates = dailyAggregates (data d),
        monthlyAggregates = monthlyAggregates (data d),
        streak = streak (data d)\<rparr>\<rparr>)))"
  by (simp add: importData_def exportData_def stringify_def orElse_def)

text \<open>
  C10 (amended). Importing the text that \<open>exportData\<close> produced succeeds and leaves
  \<open>dailyAggregates\<close>, \<open>monthlyAggregates\<close> and \<open>streak\<close> equal to those of the exported
  database, and \<open>playRecords\<close> equal up to \<open>totalDuration\<close>: a \<open>totalDuration\<close> that is not
  finite comes back as \<open>null\<close>. When no record has such a \<open>totalDuration\<close>, all four fields
  come back equal. The document has no other field, so \<open>version\<close> and \<open>exportDate\<close> are not
  kept.
\<close>

theorem import_export_roundtrip:
  "\<exists>d'. importData ok (exportData now d) target = Inr d'
        \<and> playRecords (data d') =
            map (\<lambda>r. r\<lparr>totalDuration := (case totalDuration r of Num n \<Rightarrow> Num n | _ \<Rightarrow> Null)\<rparr>)
              (playRecords (data d))
        \<and> dailyAggregates (data d') = dailyAggregates (data d)
        \<and> monthlyAggregates (data d') = monthlyAggregates (data d)
        \<and> streak (data d') = streak (data d)
        \<and> ((\<forall>r\<in>set (playRecords (data d)).
               totalDuration r \<noteq> NaN \<and> totalDuration r \<noteq> PosInf \<and> totalDuration r \<noteq> NegInf) \<longrightarrow>
             data d' = data d)"
proof -
  define d' where "d' = save ok (markDirty (target\<lparr>data :=
       \<lparr>playRecords = map jsonRecord (playRecords (data d)),
        dailyAggregates = dailyAggregates (data d),
        monthlyAggregates = monthlyAggregates (data d),
        streak = streak (data d)\<rparr>\<rparr>))"
  have dat: "data d' =
       \<lparr>playRecords = map jsonRecord (playRecords (data d)),
        dailyAggregates = dailyAggregates (data d),
        monthlyAggregates = monthlyAggregates (data d),
        streak = streak (data d)\<rparr>"
    by (simp add: d'_def save_def markDirty_def)
  have 1: "importData ok (exportData now d) target = Inr d'"
    by (simp add: importData_exportData d'_def)
  have 2: "playRecords (data d') =
      map (\<lambda>r. r\<lparr>totalDuration := (case totalDuration r of Num n \<Rightarrow> Num n | _ \<Rightarrow> Null)\<rparr>)
        (playRecords (data d))"
    by (simp add: dat jsonRecord_def [abs_def] jsonNumber_def)
  have 3: "dailyAggregates (data d') = dailyAggregates (data d)"
    "monthlyAggregates (data d') = monthlyAggregates (data d)"
    "streak (data d') = streak (data d)"
    by (simp_all add: dat)
  have 4: "data d' = data d"
    if "\<forall>r\<in>set (playRecords (data d)).
          totalDuration r \<noteq> NaN \<and> totalDuration r \<noteq> PosInf \<and> totalDuration r \<noteq> NegInf"
    using jsonRecords_fixed [OF that] by (simp add: dat)
  from 1 2 3 4 show ?thesis by blast
qed

theorem import_export_roundtrip_witness:
  "\<exists>d'. importData True (exportData 7 (dbUpdateStreak 2 3 (dbOf [mkRecord ''a'' ''x'' 5 40]))) newDatabase = Inr d'
        \<and> playRecords (data d') = [mkRecord ''a'' ''x'' 5 40]
        \<and> streak (data d') = Some \<lparr>lastListenDate = 2, currentStreak = 3\<rparr>"
proof -
  have fin: "\<forall>r\<in>set (playRecords (data (dbUpdateStreak 2 3 (dbOf [mkRecord ''a'' ''x'' 5 40])))).
      totalDuration r \<noteq> NaN \<and> totalDuration r \<noteq> PosInf \<and> totalDuration r \<noteq> NegInf"
    by (simp add: dbUpdateStreak_def dbOf_def newDatabase_def emptySchema_def markDirty_def mkRecord_def)
  from import_export_roundtrip [of True 7 "dbUpdateStreak 2 3 (dbOf [mkRecord ''a'' ''x'' 5 40])" newDatabase] fin
  obtain d' where
    a: "importData True (exportData 7 (dbUpdateStreak 2 3 (dbOf [mkRecord ''a'' ''x'' 5 40]))) newDatabase = Inr d'"
    and b: "data d' = data (dbUpdateStreak 2 3 (dbOf [mkRecord ''a'' ''x'' 5 40]))"
    by blast
  from b have "playRecords (data d') = [mkRecord ''a'' ''x'' 5 40]"
    and "streak (data d') = Some \<lparr>lastListenDate = 2, currentStreak = 3\<rparr>"
    by (simp_all add: dbUpdateStreak_def dbOf_def newDatabase_def emptySchema_def markDirty_def)
  with a show ?thesis by blast
qed

text \<open>
  C10 as stated fails: a play of a stream without an end is stored with the
  \<open>totalDuration\<close> \<open>Infinity\<close>, which the exported text writes as \<open>null\<close>; after the import the
  record holds \<open>null\<close>.
\<close>

theorem import_export_infinite_duration_counterexample:
  "playRecords (data (dbOf [(mkRecord ''live'' ''x'' 5 40)\<lparr>totalDuration := PosInf\<rparr>])) =
     [(mkRecord ''live'' ''x'' 5 40)\<lparr>totalDuration := PosInf\<rparr>]
   \<and> importData True (exportData 7 (dbOf [(mkRecord ''live'' ''x'' 5 40)\<lparr>totalDuration := PosInf\<rparr>])) newDatabase =
       Inr (newDatabase\<lparr>data := emptySchema\<lparr>playRecords := [(mkRecord ''live'' ''x'' 5 40)\<lparr>totalDuration := Null\<rparr>]\<rparr>,
              disk := Some (emptySchema\<lparr>playRecords := [(mkRecord ''live'' ''x'' 5 40)\<lparr>totalDuration := Null\<rparr>]\<rparr>)\<rparr>)
   \<and> (mkRecord ''live'' ''x'' 5 40)\<lparr>totalDuration := Null\<rparr> \<noteq> (mkRecord ''live'' ''x'' 5 40)\<lparr>totalDuration := PosInf\<rparr>"
  by (simp add: importData_exportData dbOf_def newDatabase_def emptySchema_def save_def markDirty_def
        jsonSchema_def jsonRecord_def jsonNumber_def mkRecord_def)

text \<open>
  C3 (amended). \<open>parseExport\<close> turns an unparseable text into the empty canonical schema with
  export date 0 instead of raising; and when the clock is not before the epoch, the
  reconciliation of a pass whose remote text is unparseable succeeds whenever its upload
  succeeds. (\<open>importData\<close> itself has no fallback, see the counterexample.)
\<close>

theorem reconcile_unparseable_remote:
  "parseExport (Unparseable s) = (0, emptyDoc)
   \<and> (0 \<le> clockNow env \<and> uploadReply env = Ok () \<longrightarrow>
        (\<exists>message st'. reconcile cfg env tok fid d (exportData (clockNow env) d) (Unparseable s) st =
            (Inr message, st')))"
proof
  show "parseExport (Unparseable s) = (0, emptyDoc)" by (simp add: parseExport_def)
  show "0 \<le> clockNow env \<and> uploadReply env = Ok () \<longrightarrow>
        (\<exists>message st'. reconcile cfg env tok fid d (exportData (clockNow env) d) (Unparseable s) st =
            (Inr message, st'))"
  proof
    assume a: "0 \<le> clockNow env \<and> uploadReply env = Ok ()"
    then have up: "\<And>content st. uploadDriveFile tok env fid content st = (Inr (), send (Upload tok fid content) st)"
      by (simp add: uploadDriveFile_ok)
    have pr: "fst (parseExport (Unparseable s)) = 0" by (simp add: parseExport_def)
    have pl: "fst (parseExport (exportData (clockNow env) d)) = clockNow env"
      by (simp add: parseExport_local)
    show "\<exists>message st'. reconcile cfg env tok fid d (exportData (clockNow env) d) (Unparseable s) st =
            (Inr message, st')"
      using a by (simp add: reconcile_def Let_def up pr pl importData_def stringify_def)
  qed
qed

theorem reconcile_unparseable_remote_witness:
  "0 \<le> clockNow (exampleEnv (Unparseable ''{'') 10) \<and> uploadReply (exampleEnv (Unparseable ''{'') 10) = Ok () \<and>
   (\<exists>message st'. reconcile exampleConfig (exampleEnv (Unparseable ''{'') 10) ''tok'' ''file'' newDatabase
       (exportData (clockNow (exampleEnv (Unparseable ''{'') 10)) newDatabase) (Unparseable ''{'')
       (backendOf newDatabase) = (Inr message, st'))"
  using reconcile_unparseable_remote [of "''{''" "exampleEnv (Unparseable ''{'') 10" exampleConfig
      "''tok''" "''file''" newDatabase "backendOf newDatabase"]
  by (simp add: exampleEnv_def)

text \<open>C3 as stated fails for \<open>importData\<close>: an unparseable text makes it raise.\<close>

theorem importData_unparseable_counterexample:
  "importData True (Unparseable ''{'') newDatabase = Inl SyntaxError"
  by (simp add: importData_def)
















subsection \<open>Access tokens\<close>

lemma send_changes: "send rq st \<noteq> st"
proof
  assume "send rq st = st"
  then have "netLog (send rq st) = netLog st" by simp
  then show False by (simp add: send_def)
qed

lemma refreshCalls_send_refresh:
  "refreshCalls (send (TokenRefresh c s t) st) = refreshCalls st @ [TokenRefresh c s t]"
  by (simp add: refreshCalls_def send_def)

text \<open>
  C8 (amended). \<open>ensureAccessToken\<close> returns the persisted access token when it is present
  with an expiry more than 60 seconds ahead, otherwise the session token under the same
  rule, in both cases without a request. Otherwise it fails with the missing-refresh-token
  error, without a request, exactly when the client id is missing or neither a persisted
  nor a session refresh token exists; and else it sends exactly one refresh request, and
  a reply carrying an access token makes it return that token and store it in the session
  and in the configuration.
\<close>

theorem ensureAccessToken_cases:
  "(cloudSyncAccessToken cfg = Some tok \<and> tok \<noteq> [] \<and> cloudSyncAccessTokenExpiry cfg = Some e \<and>
      e \<noteq> 0 \<and> e > now + 60000 \<longrightarrow> ensureAccessToken cfg now reply st = (Inr tok, st))
   \<and> (freshPersistedToken cfg now = None \<and> sessionAccessToken st = Some tok \<and> tok \<noteq> [] \<and>
      sessionAccessTokenExpiry st > now + 60000 \<longrightarrow> ensureAccessToken cfg now reply st = (Inr tok, st))
   \<and> (freshPersistedToken cfg now = None \<and> freshSessionToken st now = None \<longrightarrow>
        ((ensureAccessToken cfg now reply st =
            (Inl (ErrorMsg ''Missing refresh token. Reconnect Google Drive.''), st))
          \<longleftrightarrow> (truthyStr (cloudSyncClientId cfg) = None \<or>
               (truthyStr (cloudSyncRefreshToken cfg) = None \<and> truthyStr (sessionRefreshToken st) = None)))
        \<and> (truthyStr (cloudSyncClientId cfg) \<noteq> None \<and>
             (truthyStr (cloudSyncRefreshToken cfg) \<noteq> None \<or> truthyStr (sessionRefreshToken st) \<noteq> None) \<longrightarrow>
               (\<exists>c s t. netLog (snd (ensureAccessToken cfg now reply st)) = netLog st @ [TokenRefresh c s t])
               \<and> (\<forall>fresh ttl. reply = Ok (Some fresh, ttl) \<and> fresh \<noteq> [] \<longrightarrow>
                    fst (ensureAccessToken cfg now reply st) = Inr fresh
                    \<and> sessionAccessToken (snd (ensureAccessToken cfg now reply st)) = Some fresh
                    \<and> cloudSyncAccessToken (config (snd (ensureAccessToken cfg now reply st))) = Some fresh)))"
proof (intro conjI impI)
  assume "cloudSyncAccessToken cfg = Some tok \<and> tok \<noteq> [] \<and> cloudSyncAccessTokenExpiry cfg = Some e \<and>
      e \<noteq> 0 \<and> e > now + 60000"
  then show "ensureAccessToken cfg now reply st = (Inr tok, st)"
    by (auto simp: ensureAccessToken_def freshPersistedToken_def truthyStr_def truthyNum_def)
next
  assume "freshPersistedToken cfg now = None \<and> sessionAccessToken st = Some tok \<and> tok \<noteq> [] \<and>
      sessionAccessTokenExpiry st > now + 60000"
  then show "ensureAccessToken cfg now reply st = (Inr tok, st)"
    by (auto simp: ensureAccessToken_def freshSessionToken_def truthyStr_def)
next
  assume a: "freshPersistedToken cfg now = None \<and> freshSessionToken st now = None"
  show "(ensureAccessToken cfg now reply st =
            (Inl (ErrorMsg ''Missing refresh token. Reconnect Google Drive.''), st))
          \<longleftrightarrow> (truthyStr (cloudSyncClientId cfg) = None \<or>
               (truthyStr (cloudSyncRefreshToken cfg) = None \<and> truthyStr (sessionRefreshToken st) = None))"
    using a send_changes
    by (cases reply) (auto simp: ensureAccessToken_def Let_def split: option.splits)
next
  assume a: "freshPersistedToken cfg now = None \<and> freshSessionToken st now = None"
    and b: "truthyStr (cloudSyncClientId cfg) \<noteq> None \<and>
             (truthyStr (cloudSyncRefreshToken cfg) \<noteq> None \<or> truthyStr (sessionRefreshToken st) \<noteq> None)"
  show "\<exists>c s t. netLog (snd (ensureAccessToken cfg now reply st)) = netLog st @ [TokenRefresh c s t]"
    using a b
    by (cases reply) (auto simp: ensureAccessToken_def Let_def send_def split: option.splits)
next
  assume a: "freshPersistedToken cfg now = None \<and> freshSessionToken st now = None"
    and b: "truthyStr (cloudSyncClientId cfg) \<noteq> None \<and>
             (truthyStr (cloudSyncRefreshToken cfg) \<noteq> None \<or> truthyStr (sessionRefreshToken st) \<noteq> None)"
  show "\<forall>fresh ttl. reply = Ok (Some fresh, ttl) \<and> fresh \<noteq> [] \<longrightarrow>
          fst (ensureAccessToken cfg now reply st) = Inr fresh
          \<and> sessionAccessToken (snd (ensureAccessToken cfg now reply st)) = Some fresh
          \<and> cloudSyncAccessToken (config (snd (ensureAccessToken cfg now reply st))) = Some fresh"
    using a b
    by (auto simp: ensureAccessToken_def Let_def send_def truthyStr_def split: option.splits)
qed

theorem ensureAccessToken_cases_witness:
  "freshPersistedToken expiredConfig 10 = None \<and> freshSessionToken (backendOf newDatabase) 10 = None \<and>
   truthyStr (cloudSyncClientId expiredConfig) \<noteq> None \<and>
   truthyStr (cloudSyncRefreshToken expiredConfig) \<noteq> None \<and>
   (\<exists>c s t. netLog (snd (ensureAccessToken expiredConfig 10 (Ok (Some ''fresh'', Some 3600)) (backendOf newDatabase))) =
       netLog (backendOf newDatabase) @ [TokenRefresh c s t]) \<and>
   fst (ensureAccessToken expiredConfig 10 (Ok (Some ''fresh'', Some 3600)) (backendOf newDatabase)) = Inr ''fresh'' \<and>
   ensureAccessToken exampleConfig 10 (Ok (Some ''fresh'', Some 3600)) (backendOf newDatabase) =
     (Inr ''tok'', backendOf newDatabase)"
proof -
  have a: "freshPersistedToken expiredConfig 10 = None" "freshSessionToken (backendOf newDatabase) 10 = None"
    "truthyStr (cloudSyncClientId expiredConfig) \<noteq> None"
    "truthyStr (cloudSyncRefreshToken expiredConfig) \<noteq> None"
    by (simp_all add: freshPersistedToken_def freshSessionToken_def expiredConfig_def exampleConfig_def
          defaultConfig_def backendOf_def truthyStr_def truthyNum_def)
  have b: "cloudSyncAccessToken exampleConfig = Some ''tok''" "''tok'' \<noteq> []"
    "cloudSyncAccessTokenExpiry exampleConfig = Some 100000" "(100000::int) \<noteq> 0" "(100000::int) > 10 + 60000"
    by (simp_all add: exampleConfig_def)
  note t1 = ensureAccessToken_cases [of expiredConfig "''x''" 0 10 "Ok (Some ''fresh'', Some 3600)"
      "backendOf newDatabase"]
  note t2 = ensureAccessToken_cases [of exampleConfig "''tok''" 100000 10 "Ok (Some ''fresh'', Some 3600)"
      "backendOf newDatabase"]
  from t1 a have c: "\<exists>c s t. netLog (snd (ensureAccessToken expiredConfig 10 (Ok (Some ''fresh'', Some 3600))
      (backendOf newDatabase))) = netLog (backendOf newDatabase) @ [TokenRefresh c s t]"
    and d: "fst (ensureAccessToken expiredConfig 10 (Ok (Some ''fresh'', Some 3600)) (backendOf newDatabase)) =
      Inr ''fresh''"
    by simp_all
  from t2 b have e: "ensureAccessToken exampleConfig 10 (Ok (Some ''fresh'', Some 3600)) (backendOf newDatabase) =
     (Inr ''tok'', backendOf newDatabase)"
    by simp
  from a c d e show ?thesis by simp
qed

text \<open>
  C8 as stated fails in both directions: with a fresh cached token and no refresh token at
  all the call succeeds, and with a refresh token but no client id it fails with the
  missing-refresh-token error.
\<close>

theorem ensureAccessToken_missing_refresh_counterexample:
  "truthyStr (cloudSyncRefreshToken exampleConfig) = None
   \<and> truthyStr (sessionRefreshToken (backendOf newDatabase)) = None
   \<and> ensureAccessToken exampleConfig 10 (Threw ''offline'') (backendOf newDatabase) =
       (Inr ''tok'', backendOf newDatabase)
   \<and> truthyStr (cloudSyncRefreshToken (expiredConfig\<lparr>cloudSyncClientId := None\<rparr>)) = Some ''refresh''
   \<and> ensureAccessToken (expiredConfig\<lparr>cloudSyncClientId := None\<rparr>) 10 (Ok (Some ''fresh'', Some 3600))
        (backendOf newDatabase) =
       (Inl (ErrorMsg ''Missing refresh token. Reconnect Google Drive.''), backendOf newDatabase)"
  by (simp add: ensureAccessToken_def freshPersistedToken_def freshSessionToken_def expiredConfig_def
        exampleConfig_def defaultConfig_def backendOf_def truthyStr_def truthyNum_def)

subsection \<open>Tallies of computeStats\<close>

lemma upsert_lookup:
  "map_of (upsert k fresh change m) k' =
     (if k' = k then Some (case map_of m k of None \<Rightarrow> fresh | Some e \<Rightarrow> change e) else map_of m k')"
  by (simp add: upsert_def update_conv' split: option.splits)

lemma upsert_distinct:
  "distinct (map fst m) \<Longrightarrow> distinct (map fst (upsert k fresh change m))"
  by (simp add: upsert_def distinct_update split: option.splits)

lemma tally_fold:
  assumes step: "\<And>r. step r = upsert (key r) (fresh r) (change r)"
    and fresh: "\<And>r. g (fresh r) = w r"
    and change: "\<And>r e. g (change r e) = c (g e) r"
  shows "map_option g (map_of (fold step rs m) k) =
           (case filter (\<lambda>r. key r = k) rs of
              [] \<Rightarrow> map_option g (map_of m k)
            | r # rest \<Rightarrow>
                Some (foldl c (case map_of m k of None \<Rightarrow> w r | Some e \<Rightarrow> c (g e) r) rest))"
proof (induction rs arbitrary: m)
  case Nil
  then show ?case by simp
next
  case (Cons r rs)
  have one: "map_of (step r m) k =
      (if k = key r then Some (case map_of m (key r) of None \<Rightarrow> fresh r | Some e \<Rightarrow> change r e)
       else map_of m k)"
    by (simp add: step upsert_lookup)
  show ?case
  proof (cases "k = key r")
    case True
    define a where "a = (case map_of m k of None \<Rightarrow> w r | Some e \<Rightarrow> c (g e) r)"
    obtain e0 where e0: "map_of (step r m) k = Some e0" and g0: "g e0 = a"
      using one True by (cases "map_of m (key r)") (simp_all add: a_def fresh change)
    have "map_option g (map_of (fold step rs (step r m)) k) = Some (foldl c a (filter (\<lambda>r. key r = k) rs))"
      unfolding Cons.IH [of "step r m"] e0
      by (cases "filter (\<lambda>r. key r = k) rs") (simp_all add: g0)
    then show ?thesis using True by (simp add: a_def)
  next
    case False
    then have "filter (\<lambda>r. key r = k) (r # rs) = filter (\<lambda>r. key r = k) rs" by auto
    then show ?thesis
      using Cons.IH [of "step r m"] one False by (simp cong: list.case_cong)
  qed
qed

lemma tally_distinct:
  assumes step: "\<And>r. step r = upsert (key r) (fresh r) (change r)"
  shows "distinct (map fst m) \<Longrightarrow> distinct (map fst (fold step rs m))"
  by (induction rs arbitrary: m) (simp_all add: step upsert_distinct)

lemma count_fold:
  "foldl (\<lambda>n r. n + (if q r then 1 else 0)) a rs = a + length (filter q rs)"
  by (induction rs arbitrary: a) simp_all

lemma plays_tally:
  assumes "x = (case filter (\<lambda>r. key r = k) rs of
                  [] \<Rightarrow> None
                | r # rest \<Rightarrow>
                    Some (foldl (\<lambda>n r. n + (if isQualifiedPlay r then 1 else 0))
                            (if isQualifiedPlay r then 1 else 0) rest))"
  shows "x = (if k \<in> key ` set rs then Some (qualifiedPlays key k rs) else None)"
proof (cases "filter (\<lambda>r. key r = k) rs")
  case Nil
  then have "k \<notin> key ` set rs" by (auto simp: filter_empty_conv)
  with Nil assms show ?thesis by simp
next
  case (Cons r rest)
  then have "r \<in> set (filter (\<lambda>r. key r = k) rs)" by simp
  then have k: "k \<in> key ` set rs" by auto
  have "qualifiedPlays key k rs = length (filter isQualifiedPlay (filter (\<lambda>r. key r = k) rs))"
    by (simp add: qualifiedPlays_def isQualifiedPlay_def [abs_def])
  also have "\<dots> = (if isQualifiedPlay r then 1 else 0) + length (filter isQualifiedPlay rest)"
    by (simp add: Cons)
  finally show ?thesis using assms k by (simp add: Cons count_fold)
qed

lemma fold_statsStep_songs:
  "songPlayMap (fold (statsStep tz mo) rs acc) = fold songStep rs (songPlayMap acc)"
  by (induction rs arbitrary: acc) (simp_all add: statsStep_def Let_def)

lemma fold_statsStep_artists:
  "artistPlayMap (fold (statsStep tz mo) rs acc) = fold artistStep rs (artistPlayMap acc)"
  by (induction rs arbitrary: acc) (simp_all add: statsStep_def Let_def)

lemma fold_statsStep_skips:
  "skipMap (fold (statsStep tz mo) rs acc) = fold skipStep rs (skipMap acc)"
  by (induction rs arbitrary: acc) (simp_all add: statsStep_def Let_def)

lemma fold_statsStep_daily:
  "dailyMap (fold (statsStep tz mo) rs acc) =
     fold (\<lambda>r. addTo (dateOf (timestamp r)) (minutesOf r)) rs (dailyMap acc)"
  by (induction rs arbitrary: acc) (simp_all add: statsStep_def Let_def)

lemma song_plays:
  "map_option sPlays (map_of (fold songStep rs []) k) =
     (if k \<in> songId ` set rs then Some (qualifiedPlays songId k rs) else None)"
  by (rule plays_tally)
    (simp add: tally_fold [where step = songStep and key = songId and g = sPlays
        and w = "\<lambda>r. if isQualifiedPlay r then 1 else 0"
        and c = "\<lambda>n r. n + (if isQualifiedPlay r then 1 else 0)"
        and fresh = songFresh and change = songChange and rs = rs and m = "[]" and k = k]
      songStep_def songFresh_def songChange_def cong: list.case_cong)

lemma song_minutes:
  "map_option sMinutes (map_of (fold songStep rs []) k) = tallyMinutes (filter (\<lambda>r. songId r = k) rs)"
  by (simp add: tally_fold [where step = songStep and key = songId and g = sMinutes
        and w = minutesOf and c = "\<lambda>sum r. fadd sum (minutesOf r)"
        and fresh = songFresh and change = songChange and rs = rs and m = "[]" and k = k]
      songStep_def songFresh_def songChange_def tallyMinutes_def cong: list.case_cong)

lemma artist_plays:
  "map_option aPlays (map_of (fold artistStep rs []) k) =
     (if k \<in> artistId ` set rs then Some (qualifiedPlays artistId k rs) else None)"
  by (rule plays_tally)
    (simp add: tally_fold [where step = artistStep and key = artistId and g = aPlays
        and w = "\<lambda>r. if isQualifiedPlay r then 1 else 0"
        and c = "\<lambda>n r. n + (if isQualifiedPlay r then 1 else 0)"
        and fresh = artistFresh and change = artistChange and rs = rs and m = "[]" and k = k]
      artistStep_def artistFresh_def artistChange_def cong: list.case_cong)

lemma artist_minutes:
  "map_option aMinutes (map_of (fold artistStep rs []) k) = tallyMinutes (filter (\<lambda>r. artistId r = k) rs)"
  by (simp add: tally_fold [where step = artistStep and key = artistId and g = aMinutes
        and w = minutesOf and c = "\<lambda>sum r. fadd sum (minutesOf r)"
        and fresh = artistFresh and change = artistChange and rs = rs and m = "[]" and k = k]
      artistStep_def artistFresh_def artistChange_def tallyMinutes_def cong: list.case_cong)

lemma skip_plays:
  "map_option kPlays (map_of (fold skipStep rs []) k) =
     (if k \<in> songId ` set rs then Some (qualifiedPlays songId k rs) else None)"
  by (rule plays_tally)
    (simp add: tally_fold [where step = skipStep and key = songId and g = kPlays
        and w = "\<lambda>r. if isQualifiedPlay r then 1 else 0"
        and c = "\<lambda>n r. n + (if isQualifiedPlay r then 1 else 0)"
        and fresh = skipFresh and change = skipChange and rs = rs and m = "[]" and k = k]
      skipStep_def skipFresh_def skipChange_def cong: list.case_cong)

text \<open>The listening clock and the minutes per day.\<close>

lemma clock_fold:
  "length (clockAcc (fold (statsStep tz mo) rs acc)) = length (clockAcc acc)
   \<and> (h < length (clockAcc acc) \<longrightarrow>
        clockAcc (fold (statsStep tz mo) rs acc) ! h =
          foldl (\<lambda>sum r. fadd sum (minutesOf r)) (clockAcc acc ! h)
            (filter (\<lambda>r. getHours tz (timestamp r) = h) rs))"
proof (induction rs arbitrary: acc)
  case Nil
  then show ?case by simp
next
  case (Cons r rs)
  have len: "length (clockAcc (statsStep tz mo r acc)) = length (clockAcc acc)"
    by (simp add: statsStep_def Let_def)
  have nth: "clockAcc (statsStep tz mo r acc) ! h =
      (if getHours tz (timestamp r) = h then fadd (clockAcc acc ! h) (minutesOf r) else clockAcc acc ! h)"
    if "h < length (clockAcc acc)"
    using that by (simp add: statsStep_def Let_def nth_list_update)
  from Cons.IH [of "statsStep tz mo r acc"] len nth show ?case by simp
qed

lemma addTo_lookup:
  "map_of (addTo k x m) k' = (if k' = k then Some (fadd (orElse (map_of m k) 0) x) else map_of m k')"
  by (simp add: addTo_def update_conv')

lemma addTo_distinct: "distinct (map fst m) \<Longrightarrow> distinct (map fst (addTo k x m))"
  by (simp add: addTo_def distinct_update)

lemma daily_fold:
  "map_of (fold (\<lambda>r. addTo (kf r) (minutesOf r)) rs m) k =
     (if k \<in> kf ` set rs \<or> map_of m k \<noteq> None
      then Some (foldl (\<lambda>sum r. fadd sum (minutesOf r)) (orElse (map_of m k) 0)
                   (filter (\<lambda>r. kf r = k) rs))
      else None)"
proof (induction rs arbitrary: m)
  case Nil
  then show ?case by (cases "map_of m k") (simp_all add: orElse_def)
next
  case (Cons r rs)
  show ?case
    using Cons.IH [of "addTo (kf r) (minutesOf r) m"]
    by (auto simp: addTo_lookup orElse_def)
qed

lemma daily_distinct:
  "distinct (map fst m) \<Longrightarrow> distinct (map fst (fold (\<lambda>r. addTo (kf r) (minutesOf r)) rs m))"
  by (induction rs arbitrary: m) (simp_all add: addTo_distinct)

lemma peak_fold:
  "snd (fold peakStep m best) = Some (day, mm) \<Longrightarrow>
   snd best = Some (day, mm) \<or> (\<exists>minutes. (day, minutes) \<in> set m \<and> mm = jsRound minutes)"
proof (induction m arbitrary: best)
  case Nil
  then show ?case by simp
next
  case (Cons e m)
  from Cons.IH [of "peakStep e best"] Cons.prems
  have "snd (peakStep e best) = Some (day, mm) \<or> (\<exists>minutes. (day, minutes) \<in> set m \<and> mm = jsRound minutes)"
    by simp
  then show ?case
    by (cases e) (auto simp: peakStep_def split: if_splits)
qed

text \<open>Sorting the records does not change a count.\<close>

lemma sorted_count:
  "length (filter p (sort_key f rs)) = length (filter p rs)"
proof -
  have "size (filter_mset p (mset (sort_key f rs))) = size (filter_mset p (mset rs))" by simp
  then show ?thesis by (simp only: mset_filter [symmetric] size_mset)
qed

lemma allRecords_plays: "qualifiedPlays key k (getPlayRecords None None d) = qualifiedPlays key k (playRecords (data d))"
  by (simp add: qualifiedPlays_def getPlayRecords_def truthyNum_def sorted_count)

lemma allRecords_keys: "key ` set (getPlayRecords None None d) = key ` set (playRecords (data d))"
  by (simp add: getPlayRecords_def truthyNum_def)

text \<open>A ranking: the first \<open>n\<close> entries after a stable sort.\<close>

lemma ranked_subset: "set (take n (sort_key f xs)) \<subseteq> set xs"
  using set_take_subset [of n "sort_key f xs"] by simp

lemma ranked_sorted:
  fixes f :: "'a \<Rightarrow> 'b::linorder"
  shows "sorted (map f (take n (sort_key f xs)))"
  by (simp add: take_map [symmetric] sorted_wrt_take)

lemma ranked_top:
  fixes f :: "'a \<Rightarrow> 'b::linorder"
  assumes "x \<in> set xs" and "x \<notin> set (take n (sort_key f xs))" and "y \<in> set (take n (sort_key f xs))"
  shows "f y \<le> f x"
proof -
  have "set (sort_key f xs) = set (take n (sort_key f xs)) \<union> set (drop n (sort_key f xs))"
    by (metis append_take_drop_id set_append)
  with assms(1,2) have x: "x \<in> set (drop n (sort_key f xs))" by auto
  have "sorted (map f (take n (sort_key f xs) @ drop n (sort_key f xs)))" by simp
  then have "\<forall>a\<in>set (take n (sort_key f xs)). \<forall>b\<in>set (drop n (sort_key f xs)). f a \<le> f b"
    unfolding map_append sorted_append by auto
  with x assms(3) show ?thesis by blast
qed

lemma keyed_entry:
  assumes "distinct (map fst m)" and "(i, e) \<in> set m"
  shows "map_of m i = Some e"
  using assms by (rule map_of_is_SomeI)

lemma keyed_length:
  assumes "distinct (map fst m)"
  shows "length m = card (fst ` set m)"
  using distinct_card [OF assms] by simp

text \<open>The month maps are never empty, so every month has an obsession.\<close>

lemma in_update:
  "e \<in> set (AList.update k v m) \<Longrightarrow> e \<in> set m \<or> e = (k, v)"
  by (induction m) (auto split: if_splits)

lemma addTo_nonempty: "addTo k x m \<noteq> []"
  by (simp add: addTo_def)

lemma monthly_nonempty:
  assumes "\<forall>e\<in>set (monthlyArtists acc). snd e \<noteq> []"
  shows "\<forall>e\<in>set (monthlyArtists (fold (statsStep tz mo) rs acc)). snd e \<noteq> []"
  using assms
proof (induction rs arbitrary: acc)
  case Nil
  then show ?case by simp
next
  case (Cons r rs)
  have "\<forall>e\<in>set (monthlyArtists (statsStep tz mo r acc)). snd e \<noteq> []"
  proof
    fix e assume "e \<in> set (monthlyArtists (statsStep tz mo r acc))"
    then have "e \<in> set (AList.update (mo (dateOf (timestamp r)))
        (addTo (artistId r) (minutesOf r) (orElse (map_of (monthlyArtists acc) (mo (dateOf (timestamp r)))) []))
        (monthlyArtists acc))"
      by (simp add: statsStep_def Let_def)
    then have "e \<in> set (monthlyArtists acc) \<or> snd e = addTo (artistId r) (minutesOf r)
        (orElse (map_of (monthlyArtists acc) (mo (dateOf (timestamp r)))) [])"
      using in_update by fastforce
    then show "snd e \<noteq> []" using Cons.prems by (auto simp: addTo_nonempty)
  qed
  from Cons.IH [OF this] show ?case by simp
qed

lemma obsessionsOf_ok:
  assumes "\<forall>e\<in>set ms. snd e \<noteq> []"
  shows "\<exists>xs. obsessionsOf allRecords ms = Inr xs"
  using assms
proof (induction ms)
  case Nil
  then show ?case by simp
next
  case (Cons e ms)
  obtain ym am where e: "e = (ym, am)" by (cases e)
  with Cons.prems have "am \<noteq> []" by simp
  then have "sort_key (\<lambda>(a, minutes). - minutes) am \<noteq> []"
    by (metis length_sort length_0_conv)
  then obtain a mins rest where "sort_key (\<lambda>(a, minutes). - minutes) am = (a, mins) # rest"
    by (cases "sort_key (\<lambda>(a, minutes). - minutes) am") auto
  then have "\<exists>x. obsessionOf allRecords e = Inr x"
    by (simp add: obsessionOf_def e)
  then obtain x where "obsessionOf allRecords e = Inr x" by blast
  moreover from Cons obtain xs where "obsessionsOf allRecords ms = Inr xs" by auto
  ultimately show ?case by simp
qed

text \<open>The tally maps of a database, and the entries of the rankings.\<close>

lemma tallies_songs: "songPlayMap (tallies tz mo d) = fold songStep (getPlayRecords None None d) []"
  by (simp add: tallies_def fold_statsStep_songs emptyAcc_def)

lemma tallies_artists: "artistPlayMap (tallies tz mo d) = fold artistStep (getPlayRecords None None d) []"
  by (simp add: tallies_def fold_statsStep_artists emptyAcc_def)

lemma tallies_skips: "skipMap (tallies tz mo d) = fold skipStep (getPlayRecords None None d) []"
  by (simp add: tallies_def fold_statsStep_skips emptyAcc_def)

lemma tallies_daily:
  "dailyMap (tallies tz mo d) =
     fold (\<lambda>r. addTo (dateOf (timestamp r)) (minutesOf r)) (getPlayRecords None None d) []"
  by (simp add: tallies_def fold_statsStep_daily emptyAcc_def)

lemma tallies_distinct:
  "distinct (map fst (songPlayMap (tallies tz mo d)))"
  "distinct (map fst (artistPlayMap (tallies tz mo d)))"
  "distinct (map fst (skipMap (tallies tz mo d)))"
  "distinct (map fst (dailyMap (tallies tz mo d)))"
proof -
  show "distinct (map fst (songPlayMap (tallies tz mo d)))"
    unfolding tallies_songs
    by (rule tally_distinct [where key = songId and fresh = songFresh and change = songChange])
      (simp_all add: songStep_def)
  show "distinct (map fst (artistPlayMap (tallies tz mo d)))"
    unfolding tallies_artists
    by (rule tally_distinct [where key = artistId and fresh = artistFresh and change = artistChange])
      (simp_all add: artistStep_def)
  show "distinct (map fst (skipMap (tallies tz mo d)))"
    unfolding tallies_skips
    by (rule tally_distinct [where key = songId and fresh = skipFresh and change = skipChange])
      (simp_all add: skipStep_def)
  show "distinct (map fst (dailyMap (tallies tz mo d)))"
    unfolding tallies_daily by (rule daily_distinct) simp
qed

lemma tallies_song_plays:
  "map_option sPlays (map_of (songPlayMap (tallies tz mo d)) k) =
     (if k \<in> songId ` set (playRecords (data d))
      then Some (qualifiedPlays songId k (playRecords (data d))) else None)"
  by (simp add: tallies_songs song_plays allRecords_plays allRecords_keys)

lemma tallies_song_minutes:
  "map_option sMinutes (map_of (songPlayMap (tallies tz mo d)) k) =
     tallyMinutes (filter (\<lambda>r. songId r = k) (getPlayRecords None None d))"
  by (simp add: tallies_songs song_minutes)

lemma tallies_artist_plays:
  "map_option aPlays (map_of (artistPlayMap (tallies tz mo d)) k) =
     (if k \<in> artistId ` set (playRecords (data d))
      then Some (qualifiedPlays artistId k (playRecords (data d))) else None)"
  by (simp add: tallies_artists artist_plays allRecords_plays allRecords_keys)

lemma tallies_artist_minutes:
  "map_option aMinutes (map_of (artistPlayMap (tallies tz mo d)) k) =
     tallyMinutes (filter (\<lambda>r. artistId r = k) (getPlayRecords None None d))"
  by (simp add: tallies_artists artist_minutes)

lemma tallies_skip_plays:
  "map_option kPlays (map_of (skipMap (tallies tz mo d)) k) =
     (if k \<in> songId ` set (playRecords (data d))
      then Some (qualifiedPlays songId k (playRecords (data d))) else None)"
  by (simp add: tallies_skips skip_plays allRecords_plays allRecords_keys)

lemma tallies_song_keys:
  "fst ` set (songPlayMap (tallies tz mo d)) = songId ` set (playRecords (data d))"
proof -
  have "k \<in> fst ` set (songPlayMap (tallies tz mo d)) \<longleftrightarrow> k \<in> songId ` set (playRecords (data d))" for k
    using tallies_song_plays [of tz mo d k] map_of_eq_None_iff [of "songPlayMap (tallies tz mo d)" k]
    by (auto split: if_splits)
  then show ?thesis by blast
qed

lemma topSongs_entry:
  assumes "(i, e) \<in> set (topSongsOf (songPlayMap (tallies tz mo d)))"
  shows "sPlays e = qualifiedPlays songId i (playRecords (data d))
       \<and> map_option (\<lambda>x. of_int (jsRound x))
           (tallyMinutes (filter (\<lambda>r. songId r = i) (getPlayRecords None None d))) = Some (sMinutes e)"
proof -
  from assms obtain e0 where
    in0: "(i, e0) \<in> set (take 5 (sort_key (\<lambda>(i, e). - int (sPlays e)) (songPlayMap (tallies tz mo d))))"
    and e: "e = e0\<lparr>sMinutes := of_int (jsRound (sMinutes e0)), sImageUrl := coverUrl i (sImageUrl e0)\<rparr>"
    by (auto simp: topSongsOf_def)
  from ranked_subset [THEN subsetD, OF in0] have "(i, e0) \<in> set (songPlayMap (tallies tz mo d))" .
  with tallies_distinct(1) have m: "map_of (songPlayMap (tallies tz mo d)) i = Some e0"
    by (rule keyed_entry)
  from tallies_song_plays [of tz mo d i] m
  have 1: "sPlays e0 = qualifiedPlays songId i (playRecords (data d))" by (auto split: if_splits)
  from tallies_song_minutes [of tz mo d i] m
  have 2: "tallyMinutes (filter (\<lambda>r. songId r = i) (getPlayRecords None None d)) = Some (sMinutes e0)"
    by simp
  show ?thesis by (simp add: e 1 2)
qed

lemma topArtists_entry:
  assumes "(i, e) \<in> set (topArtistsOf (artistPlayMap (tallies tz mo d)))"
  shows "aPlays e = qualifiedPlays artistId i (playRecords (data d))
       \<and> map_option (\<lambda>x. of_int (jsRound x))
           (tallyMinutes (filter (\<lambda>r. artistId r = i) (getPlayRecords None None d))) = Some (aMinutes e)"
proof -
  from assms obtain e0 where
    in0: "(i, e0) \<in> set (take 5 (sort_key (\<lambda>(i, e). - aMinutes e) (artistPlayMap (tallies tz mo d))))"
    and e: "e = e0\<lparr>aMinutes := of_int (jsRound (aMinutes e0))\<rparr>"
    by (auto simp: topArtistsOf_def)
  from ranked_subset [THEN subsetD, OF in0] have "(i, e0) \<in> set (artistPlayMap (tallies tz mo d))" .
  with tallies_distinct(2) have m: "map_of (artistPlayMap (tallies tz mo d)) i = Some e0"
    by (rule keyed_entry)
  from tallies_artist_plays [of tz mo d i] m
  have 1: "aPlays e0 = qualifiedPlays artistId i (playRecords (data d))" by (auto split: if_splits)
  from tallies_artist_minutes [of tz mo d i] m
  have 2: "tallyMinutes (filter (\<lambda>r. artistId r = i) (getPlayRecords None None d)) = Some (aMinutes e0)"
    by simp
  show ?thesis by (simp add: e 1 2)
qed

lemma skipStats_entry:
  assumes "(i, e) \<in> set (skipStatsOf (skipMap (tallies tz mo d)))"
  shows "kPlays e = qualifiedPlays songId i (playRecords (data d))"
proof -
  from assms have "(i, e) \<in> set (take 10 (sort_key (\<lambda>(i, e). - int (kSkips e))
      (filter (\<lambda>(i, e). kSkips e > 0) (skipMap (tallies tz mo d)))))"
    by (simp add: skipStatsOf_def)
  from ranked_subset [THEN subsetD, OF this]
  have "(i, e) \<in> set (filter (\<lambda>(i, e). kSkips e > 0) (skipMap (tallies tz mo d)))" .
  then have "(i, e) \<in> set (skipMap (tallies tz mo d))" by simp
  with tallies_distinct(3) have m: "map_of (skipMap (tallies tz mo d)) i = Some e"
    by (rule keyed_entry)
  from tallies_skip_plays [of tz mo d i] m show ?thesis by (auto split: if_splits)
qed

lemma topSongs_ranked:
  "sorted_wrt (\<lambda>a b. sPlays (snd b) \<le> sPlays (snd a)) (topSongsOf (songPlayMap (tallies tz mo d)))
   \<and> length (topSongsOf (songPlayMap (tallies tz mo d))) = min 5 (card (songId ` set (playRecords (data d))))
   \<and> (\<forall>k\<in>songId ` set (playRecords (data d)). \<forall>x\<in>set (topSongsOf (songPlayMap (tallies tz mo d))).
         k \<notin> fst ` set (topSongsOf (songPlayMap (tallies tz mo d))) \<longrightarrow>
           qualifiedPlays songId k (playRecords (data d)) \<le> sPlays (snd x))"
proof -
  define m where "m = songPlayMap (tallies tz mo d)"
  define f where "f = (\<lambda>(i :: string, e :: SongEntry). - int (sPlays e))"
  define F where "F = (\<lambda>(i :: string, e :: SongEntry). (i, e\<lparr>sMinutes := of_int (jsRound (sMinutes e)), sImageUrl := coverUrl i (sImageUrl e)\<rparr>))"
  have top: "topSongsOf m = map F (take 5 (sort_key f m))"
    by (simp add: topSongsOf_def f_def F_def)
  have fF: "f (F x) = f x" "fst (F x) = fst x" for x by (cases x; simp add: f_def F_def)+
  have "map f (topSongsOf m) = map f (take 5 (sort_key f m))"
    by (simp add: top fF comp_def)
  with ranked_sorted [of f 5 m] have "sorted (map f (topSongsOf m))" by simp
  then have "sorted_wrt (\<lambda>a b. f a \<le> f b) (topSongsOf m)" by (simp add: sorted_map)
  then have 1: "sorted_wrt (\<lambda>a b. sPlays (snd b) \<le> sPlays (snd a)) (topSongsOf m)"
    by (rule sorted_wrt_mono_rel [rotated]) (auto simp: f_def split: prod.splits)
  have "length m = card (fst ` set m)"
    by (rule keyed_length) (simp add: m_def tallies_distinct)
  then have len: "length m = card (songId ` set (playRecords (data d)))"
    by (simp add: m_def tallies_song_keys)
  have 2: "length (topSongsOf m) = min 5 (card (songId ` set (playRecords (data d))))"
    by (simp add: top len min.commute)
  have 3: "qualifiedPlays songId k (playRecords (data d)) \<le> sPlays (snd x)"
    if k: "k \<in> songId ` set (playRecords (data d))" and x: "x \<in> set (topSongsOf m)"
      and out: "k \<notin> fst ` set (topSongsOf m)" for k x
  proof -
    from k have "k \<in> fst ` set m" by (simp add: m_def tallies_song_keys)
    then obtain ek where ek: "(k, ek) \<in> set m" by auto
    have "map_of m k = Some ek"
      by (rule keyed_entry) (simp_all add: m_def tallies_distinct ek [unfolded m_def])
    with tallies_song_plays [of tz mo d k]
    have pk: "sPlays ek = qualifiedPlays songId k (playRecords (data d))"
      by (auto simp: m_def split: if_splits)
    have notin: "(k, ek) \<notin> set (take 5 (sort_key f m))"
    proof
      assume "(k, ek) \<in> set (take 5 (sort_key f m))"
      then have "F (k, ek) \<in> set (topSongsOf m)" by (simp add: top)
      then have "fst (F (k, ek)) \<in> fst ` set (topSongsOf m)" by (rule imageI)
      with out show False by (simp add: fF)
    qed
    from x obtain y where y: "y \<in> set (take 5 (sort_key f m))" and xy: "x = F y"
      by (auto simp: top)
    from ranked_top [OF ek notin y] have "f y \<le> f (k, ek)" .
    then have "sPlays ek \<le> sPlays (snd y)" by (cases y) (simp add: f_def)
    moreover have "sPlays (snd x) = sPlays (snd y)" by (cases y) (simp add: xy F_def)
    ultimately show ?thesis using pk by simp
  qed
  from 1 2 3 show ?thesis unfolding m_def by blast
qed

lemma clock_hours:
  "length (clockAcc (tallies tz mo d)) = 24
   \<and> (h < 24 \<longrightarrow> clockAcc (tallies tz mo d) ! h =
        sumMinutes (filter (\<lambda>r. getHours tz (timestamp r) = h) (getPlayRecords None None d)))"
  using clock_fold [of tz mo "getPlayRecords None None d" emptyAcc h]
  by (simp add: tallies_def emptyAcc_def sumMinutes_def)

lemma peak_minutes:
  assumes "peakOf (dailyMap (tallies tz mo d)) = Some (day, mm)"
  shows "mm = jsRound (sumMinutes (filter (\<lambda>r. dateOf (timestamp r) = day) (getPlayRecords None None d)))"
proof -
  from assms peak_fold [of "dailyMap (tallies tz mo d)" "(0, None)" day mm]
  obtain minutes where in0: "(day, minutes) \<in> set (dailyMap (tallies tz mo d))" and mm: "mm = jsRound minutes"
    by (auto simp: peakOf_def)
  from tallies_distinct(4) in0 have "map_of (dailyMap (tallies tz mo d)) day = Some minutes"
    by (rule keyed_entry)
  then have "minutes = sumMinutes (filter (\<lambda>r. dateOf (timestamp r) = day) (getPlayRecords None None d))"
    unfolding tallies_daily daily_fold by (simp add: sumMinutes_def orElse_def split: if_splits)
  with mm show ?thesis by simp
qed

lemma computeStats_fields:
  assumes "db st = Some d"
  shows "\<exists>stats. computeStats tz mo yo now st = Inr stats
     \<and> totalSongs stats = length (filter isQualifiedPlay (getPlayRecords None None d))
     \<and> totalMinutes' stats = jsRound (sumMinutes (getPlayRecords None None d))
     \<and> topSongs' stats = topSongsOf (songPlayMap (tallies tz mo d))
     \<and> topArtists' stats = topArtistsOf (artistPlayMap (tallies tz mo d))
     \<and> skipStats stats = skipStatsOf (skipMap (tallies tz mo d))
     \<and> listeningClock stats = map jsRound (clockAcc (tallies tz mo d))
     \<and> peakListeningDay stats = peakOf (dailyMap (tallies tz mo d))"
proof -
  define allRecords where "allRecords = getPlayRecords None None d"
  have acc: "tallies tz mo d = fold (statsStep tz mo) allRecords emptyAcc"
    by (simp add: tallies_def allRecords_def)
  have "\<forall>e\<in>set (monthlyArtists (fold (statsStep tz mo) allRecords emptyAcc)). snd e \<noteq> []"
    by (rule monthly_nonempty) (simp add: emptyAcc_def)
  then obtain obsessions where
    ob: "obsessionsOf allRecords (monthlyArtists (fold (statsStep tz mo) allRecords emptyAcc)) = Inr obsessions"
    using obsessionsOf_ok by blast
  show ?thesis
    using assms ob
    by (simp add: computeStats_def Let_def allRecords_def [symmetric] acc sumMinutes_def)
qed

text \<open>
  C4. \<open>computeStats\<close> returns. \<open>totalSongs\<close> is the number of stored records with
  \<open>durationListened\<close> of at least 30, and the play count of every entry of the song, artist
  and skip rankings, and of every entry of the three tally maps, is the number of such
  records with the id of the entry: a record counts if and only if it listened for at
  least 30 seconds. The song ranking holds the five ids with the most counted plays (all
  ids when there are fewer), in descending order of plays. Minutes are accumulated from
  every record, short plays included, in the order newest first in which the records are
  visited, each step rounding to a double: \<open>totalMinutes\<close> rounds the sum over all records,
  the minutes of a song or artist entry are the sum over all records with its id, the
  listening clock rounds the sum over all records of the hour, and the peak day reports
  the rounded sum over all records of that day.
\<close>

theorem computeStats_qualified_threshold:
  assumes "db st = Some d"
  shows "(\<exists>stats. computeStats tz monthOf yearOf now st = Inr stats
       \<and> totalSongs stats = length (filter (\<lambda>r. durationListened r \<ge> 30) (playRecords (data d)))
       \<and> totalMinutes' stats = jsRound (sumMinutes (getPlayRecords None None d))
       \<and> (\<forall>(i, e)\<in>set (topSongs' stats).
             sPlays e = qualifiedPlays songId i (playRecords (data d)) \<and>
             map_option (\<lambda>x. of_int (jsRound x))
               (tallyMinutes (filter (\<lambda>r. songId r = i) (getPlayRecords None None d))) = Some (sMinutes e))
       \<and> sorted_wrt (\<lambda>a b. sPlays (snd b) \<le> sPlays (snd a)) (topSongs' stats)
       \<and> length (topSongs' stats) = min 5 (card (songId ` set (playRecords (data d))))
       \<and> (\<forall>k\<in>songId ` set (playRecords (data d)). \<forall>x\<in>set (topSongs' stats).
             k \<notin> fst ` set (topSongs' stats) \<longrightarrow>
               qualifiedPlays songId k (playRecords (data d)) \<le> sPlays (snd x))
       \<and> (\<forall>(i, e)\<in>set (topArtists' stats).
             aPlays e = qualifiedPlays artistId i (playRecords (data d)) \<and>
             map_option (\<lambda>x. of_int (jsRound x))
               (tallyMinutes (filter (\<lambda>r. artistId r = i) (getPlayRecords None None d))) = Some (aMinutes e))
       \<and> (\<forall>(i, e)\<in>set (skipStats stats). kPlays e = qualifiedPlays songId i (playRecords (data d)))
       \<and> length (listeningClock stats) = 24
       \<and> (\<forall>h<24. listeningClock stats ! h =
             jsRound (sumMinutes (filter (\<lambda>r. getHours tz (timestamp r) = h) (getPlayRecords None None d))))
       \<and> (\<forall>day mm. peakListeningDay stats = Some (day, mm) \<longrightarrow>
             mm = jsRound (sumMinutes (filter (\<lambda>r. dateOf (timestamp r) = day) (getPlayRecords None None d)))))
     \<and> map_option sPlays (map_of (songPlayMap (tallies tz monthOf d)) k) =
         (if k \<in> songId ` set (playRecords (data d))
          then Some (qualifiedPlays songId k (playRecords (data d))) else None)
     \<and> map_option sMinutes (map_of (songPlayMap (tallies tz monthOf d)) k) =
         tallyMinutes (filter (\<lambda>r. songId r = k) (getPlayRecords None None d))
     \<and> map_option aPlays (map_of (artistPlayMap (tallies tz monthOf d)) k) =
         (if k \<in> artistId ` set (playRecords (data d))
          then Some (qualifiedPlays artistId k (playRecords (data d))) else None)
     \<and> map_option aMinutes (map_of (artistPlayMap (tallies tz monthOf d)) k) =
         tallyMinutes (filter (\<lambda>r. artistId r = k) (getPlayRecords None None d))
     \<and> map_option kPlays (map_of (skipMap (tallies tz monthOf d)) k) =
         (if k \<in> songId ` set (playRecords (data d))
          then Some (qualifiedPlays songId k (playRecords (data d))) else None)"
proof -
  from computeStats_fields [OF assms, of tz monthOf yearOf now] obtain stats where
    r: "computeStats tz monthOf yearOf now st = Inr stats"
    and ts: "totalSongs stats = length (filter isQualifiedPlay (getPlayRecords None None d))"
    and tm: "totalMinutes' stats = jsRound (sumMinutes (getPlayRecords None None d))"
    and s: "topSongs' stats = topSongsOf (songPlayMap (tallies tz monthOf d))"
    and a: "topArtists' stats = topArtistsOf (artistPlayMap (tallies tz monthOf d))"
    and k: "skipStats stats = skipStatsOf (skipMap (tallies tz monthOf d))"
    and c: "listeningClock stats = map jsRound (clockAcc (tallies tz monthOf d))"
    and p: "peakListeningDay stats = peakOf (dailyMap (tallies tz monthOf d))"
    by blast
  have 1: "totalSongs stats = length (filter (\<lambda>r. durationListened r \<ge> 30) (playRecords (data d)))"
    by (simp add: ts getPlayRecords_def truthyNum_def sorted_count isQualifiedPlay_def [abs_def])
  have 2: "\<forall>(i, e)\<in>set (topSongs' stats).
             sPlays e = qualifiedPlays songId i (playRecords (data d)) \<and>
             map_option (\<lambda>x. of_int (jsRound x))
               (tallyMinutes (filter (\<lambda>r. songId r = i) (getPlayRecords None None d))) = Some (sMinutes e)"
    unfolding s using topSongs_entry by blast
  from topSongs_ranked [of tz monthOf d] have
    3: "sorted_wrt (\<lambda>a b. sPlays (snd b) \<le> sPlays (snd a)) (topSongs' stats)"
    and 4: "length (topSongs' stats) = min 5 (card (songId ` set (playRecords (data d))))"
    and 5: "\<forall>k\<in>songId ` set (playRecords (data d)). \<forall>x\<in>set (topSongs' stats).
             k \<notin> fst ` set (topSongs' stats) \<longrightarrow>
               qualifiedPlays songId k (playRecords (data d)) \<le> sPlays (snd x)"
    unfolding s by blast+
  have 6: "\<forall>(i, e)\<in>set (topArtists' stats).
             aPlays e = qualifiedPlays artistId i (playRecords (data d)) \<and>
             map_option (\<lambda>x. of_int (jsRound x))
               (tallyMinutes (filter (\<lambda>r. artistId r = i) (getPlayRecords None None d))) = Some (aMinutes e)"
    unfolding a using topArtists_entry by blast
  have 7: "\<forall>(i, e)\<in>set (skipStats stats). kPlays e = qualifiedPlays songId i (playRecords (data d))"
    unfolding k using skipStats_entry by blast
  have 8: "length (listeningClock stats) = 24"
    using clock_hours [of tz monthOf d 0] by (simp add: c)
  have 9: "\<forall>h<24. listeningClock stats ! h =
             jsRound (sumMinutes (filter (\<lambda>r. getHours tz (timestamp r) = h) (getPlayRecords None None d)))"
    using clock_hours [of tz monthOf d] by (simp add: c)
  have 10: "\<forall>day mm. peakListeningDay stats = Some (day, mm) \<longrightarrow>
             mm = jsRound (sumMinutes (filter (\<lambda>r. dateOf (timestamp r) = day) (getPlayRecords None None d)))"
    unfolding p using peak_minutes by blast
  have A: "\<exists>stats. computeStats tz monthOf yearOf now st = Inr stats
       \<and> totalSongs stats = length (filter (\<lambda>r. durationListened r \<ge> 30) (playRecords (data d)))
       \<and> totalMinutes' stats = jsRound (sumMinutes (getPlayRecords None None d))
       \<and> (\<forall>(i, e)\<in>set (topSongs' stats).
             sPlays e = qualifiedPlays songId i (playRecords (data d)) \<and>
             map_option (\<lambda>x. of_int (jsRound x))
               (tallyMinutes (filter (\<lambda>r. songId r = i) (getPlayRecords None None d))) = Some (sMinutes e))
       \<and> sorted_wrt (\<lambda>a b. sPlays (snd b) \<le> sPlays (snd a)) (topSongs' stats)
       \<and> length (topSongs' stats) = min 5 (card (songId ` set (playRecords (data d))))
       \<and> (\<forall>k\<in>songId ` set (playRecords (data d)). \<forall>x\<in>set (topSongs' stats).
             k \<notin> fst ` set (topSongs' stats) \<longrightarrow>
               qualifiedPlays songId k (playRecords (data d)) \<le> sPlays (snd x))
       \<and> (\<forall>(i, e)\<in>set (topArtists' stats).
             aPlays e = qualifiedPlays artistId i (playRecords (data d)) \<and>
             map_option (\<lambda>x. of_int (jsRound x))
               (tallyMinutes (filter (\<lambda>r. artistId r = i) (getPlayRecords None None d))) = Some (aMinutes e))
       \<and> (\<forall>(i, e)\<in>set (skipStats stats). kPlays e = qualifiedPlays songId i (playRecords (data d)))
       \<and> length (listeningClock stats) = 24
       \<and> (\<forall>h<24. listeningClock stats ! h =
             jsRound (sumMinutes (filter (\<lambda>r. getHours tz (timestamp r) = h) (getPlayRecords None None d))))
       \<and> (\<forall>day mm. peakListeningDay stats = Some (day, mm) \<longrightarrow>
             mm = jsRound (sumMinutes (filter (\<lambda>r. dateOf (timestamp r) = day) (getPlayRecords None None d))))"
    by (rule exI [of _ stats]) (intro conjI r 1 tm 2 3 4 5 6 7 8 9 10)
  show ?thesis
    by (intro conjI A tallies_song_plays tallies_song_minutes tallies_artist_plays
        tallies_artist_minutes tallies_skip_plays)
qed

theorem computeStats_qualified_threshold_witness:
  "db (backendOf (dbOf [mkRecord ''b'' ''y'' 1000 35, mkRecord ''b'' ''y'' 2000 236,
        mkRecord ''a'' ''x'' 3000 30, mkRecord ''a'' ''x'' 4000 29])) =
     Some (dbOf [mkRecord ''b'' ''y'' 1000 35, mkRecord ''b'' ''y'' 2000 236,
        mkRecord ''a'' ''x'' 3000 30, mkRecord ''a'' ''x'' 4000 29]) \<and>
   (\<exists>stats. computeStats (\<lambda>t. 0) (\<lambda>day. 0) (\<lambda>t. 1970) 5000
        (backendOf (dbOf [mkRecord ''b'' ''y'' 1000 35, mkRecord ''b'' ''y'' 2000 236,
           mkRecord ''a'' ''x'' 3000 30, mkRecord ''a'' ''x'' 4000 29])) = Inr stats \<and>
      totalSongs stats = 3 \<and> totalMinutes' stats = 5) \<and>
   map_option sPlays (map_of (songPlayMap (tallies (\<lambda>t. 0) (\<lambda>day. 0)
        (dbOf [mkRecord ''b'' ''y'' 1000 35, mkRecord ''b'' ''y'' 2000 236,
           mkRecord ''a'' ''x'' 3000 30, mkRecord ''a'' ''x'' 4000 29]))) ''a'') = Some 1 \<and>
   map_option sMinutes (map_of (songPlayMap (tallies (\<lambda>t. 0) (\<lambda>day. 0)
        (dbOf [mkRecord ''b'' ''y'' 1000 35, mkRecord ''b'' ''y'' 2000 236,
           mkRecord ''a'' ''x'' 3000 30, mkRecord ''a'' ''x'' 4000 29]))) ''a'') =
     Some (fadd (fdiv 29 60) (fdiv 30 60)) \<and>
   map_option aPlays (map_of (artistPlayMap (tallies (\<lambda>t. 0) (\<lambda>day. 0)
        (dbOf [mkRecord ''b'' ''y'' 1000 35, mkRecord ''b'' ''y'' 2000 236,
           mkRecord ''a'' ''x'' 3000 30, mkRecord ''a'' ''x'' 4000 29]))) ''y'') = Some 2"
proof -
  define d where "d = dbOf [mkRecord ''b'' ''y'' 1000 35, mkRecord ''b'' ''y'' 2000 236,
        mkRecord ''a'' ''x'' 3000 30, mkRecord ''a'' ''x'' 4000 29]"
  have recs: "playRecords (data d) =
      [mkRecord ''b'' ''y'' 1000 35, mkRecord ''b'' ''y'' 2000 236,
       mkRecord ''a'' ''x'' 3000 30, mkRecord ''a'' ''x'' 4000 29]"
    by (simp add: d_def dbOf_def newDatabase_def emptySchema_def)
  have visited: "getPlayRecords None None d =
      [mkRecord ''a'' ''x'' 4000 29, mkRecord ''a'' ''x'' 3000 30,
       mkRecord ''b'' ''y'' 2000 236, mkRecord ''b'' ''y'' 1000 35]"
    by (simp add: getPlayRecords_def truthyNum_def recs mkRecord_def)
  have st: "db (backendOf d) = Some d" by (simp add: backendOf_def)
  have n: "length (filter (\<lambda>r. durationListened r \<ge> 30) (playRecords (data d))) = 3"
    by (simp add: recs mkRecord_def)
  have q: "fdiv 29 60 = 8706959279582959 / 18014398509481984" "fdiv 30 60 = 1 / 2"
    "fdiv 236 60 = 8857079267161975 / 2251799813685248"
    "fdiv 35 60 = 5254199565265579 / 9007199254740992"
    by code_simp+
  have s: "fadd 0 (8706959279582959 / 18014398509481984) = 8706959279582959 / 18014398509481984"
    "fadd (8706959279582959 / 18014398509481984) (1 / 2) = 1107134908395247 / 1125899906842624"
    "fadd (1107134908395247 / 1125899906842624) (8857079267161975 / 2251799813685248) =
       2767837270988117 / 562949953421312"
    "fadd (2767837270988117 / 562949953421312) (5254199565265579 / 9007199254740992) =
       6192449487634431 / 1125899906842624"
    by code_simp+
  have r: "jsRound (6192449487634431 / 1125899906842624) = 5" by code_simp
  have m: "jsRound (sumMinutes (getPlayRecords None None d)) = 5"
    by (simp add: visited sumMinutes_def minutesOf_def mkRecord_def q s r)
  note ta = computeStats_qualified_threshold [OF st, of "\<lambda>t. 0" "\<lambda>day. 0" "\<lambda>t. 1970" 5000 "''a''"]
  note ty = computeStats_qualified_threshold [OF st, of "\<lambda>t. 0" "\<lambda>day. 0" "\<lambda>t. 1970" 5000 "''y''"]
  from conjunct1 [OF ta] obtain stats where
    c: "computeStats (\<lambda>t. 0) (\<lambda>day. 0) (\<lambda>t. 1970) 5000 (backendOf d) = Inr stats"
    and c1: "totalSongs stats = length (filter (\<lambda>r. durationListened r \<ge> 30) (playRecords (data d)))"
    and c2: "totalMinutes' stats = jsRound (sumMinutes (getPlayRecords None None d))"
    by blast
  from c c1 c2 n m have 1: "\<exists>stats. computeStats (\<lambda>t. 0) (\<lambda>day. 0) (\<lambda>t. 1970) 5000 (backendOf d) = Inr stats \<and>
      totalSongs stats = 3 \<and> totalMinutes' stats = 5"
    by simp
  have "map_option sPlays (map_of (songPlayMap (tallies (\<lambda>t. 0) (\<lambda>day. 0) d)) ''a'') =
      (if ''a'' \<in> songId ` set (playRecords (data d))
       then Some (qualifiedPlays songId ''a'' (playRecords (data d))) else None)"
    by (rule conjunct1 [OF conjunct2 [OF ta]])
  also have "\<dots> = Some 1"
    by (simp add: recs mkRecord_def qualifiedPlays_def)
  finally have 2: "map_option sPlays (map_of (songPlayMap (tallies (\<lambda>t. 0) (\<lambda>day. 0) d)) ''a'') = Some 1" .
  have "map_option sMinutes (map_of (songPlayMap (tallies (\<lambda>t. 0) (\<lambda>day. 0) d)) ''a'') =
      tallyMinutes (filter (\<lambda>r. songId r = ''a'') (getPlayRecords None None d))"
    by (rule conjunct1 [OF conjunct2 [OF conjunct2 [OF ta]]])
  also have "\<dots> = Some (fadd (fdiv 29 60) (fdiv 30 60))"
    by (simp add: visited mkRecord_def tallyMinutes_def minutesOf_def)
  finally have 3: "map_option sMinutes (map_of (songPlayMap (tallies (\<lambda>t. 0) (\<lambda>day. 0) d)) ''a'') =
      Some (fadd (fdiv 29 60) (fdiv 30 60))" .
  have "map_option aPlays (map_of (artistPlayMap (tallies (\<lambda>t. 0) (\<lambda>day. 0) d)) ''y'') =
      (if ''y'' \<in> artistId ` set (playRecords (data d))
       then Some (qualifiedPlays artistId ''y'' (playRecords (data d))) else None)"
    by (rule conjunct1 [OF conjunct2 [OF conjunct2 [OF conjunct2 [OF ty]]]])
  also have "\<dots> = Some 2"
    by (simp add: recs mkRecord_def qualifiedPlays_def)
  finally have 4: "map_option aPlays (map_of (artistPlayMap (tallies (\<lambda>t. 0) (\<lambda>day. 0) d)) ''y'') = Some 2" .
  show ?thesis
    using st 1 2 3 4 unfolding d_def by (intro conjI)
qed

end
